theory Spec2Isabelle
  imports Complex_Main
begin

section \<open>JavaScript numbers\<close>

text \<open>
  Every amount in \<^verbatim>\<open>CheckoutPage.tsx\<close> is a JavaScript \<^verbatim>\<open>number\<close>, an IEEE 754
  binary64 value. A finite value is kept as the rational it denotes; the two infinities
  and NaN are separate constructors. The two zeros are identified: the page never
  divides, and both zeros print and serialise alike.
\<close>

datatype number = Finite rat | PosInfinity | NegInfinity | NaN

fun bit_length :: "nat \<Rightarrow> nat" where
  "bit_length n = (if n = 0 then 0 else Suc (bit_length (n div 2)))"

declare bit_length.simps [simp del]

definition pow2 :: "int \<Rightarrow> rat" where
  "pow2 e = (if 0 \<le> e then 2 ^ nat e else 1 / 2 ^ nat (- e))"

text \<open>The binary exponent of a positive rational: the \<open>e\<close> with \<open>2^e \<le> a < 2^(e+1)\<close>.\<close>

definition floor_log2 :: "rat \<Rightarrow> int" where
  "floor_log2 a =
     (if 1 \<le> a then int (bit_length (nat \<lfloor>a\<rfloor>)) - 1
      else - int (bit_length (nat (\<lceil>1 / a\<rceil> - 1))))"

definition round_half_even :: "rat \<Rightarrow> int" where
  "round_half_even q =
     (let f = \<lfloor>q\<rfloor>; r = q - of_int f
      in if r < 1 / 2 then f
         else if 1 / 2 < r then f + 1
         else if even f then f else f + 1)"

text \<open>
  Rounding of an exact result to binary64, to nearest with ties to even: 53 significant
  bits, the exponent not below \<open>-1022\<close> (below it the spacing stays \<open>2^-1074\<close>, the
  subnormal range), and overflow to an infinity from \<open>2^1024\<close> on.
\<close>

definition to_double :: "rat \<Rightarrow> number" where
  "to_double x =
     (if x = 0 then Finite 0
      else
        let a = \<bar>x\<bar>;
            e = max (floor_log2 a) (- 1022);
            ulp = pow2 (e - 52);
            r = of_int (round_half_even (a / ulp)) * ulp
        in if pow2 1024 \<le> r then (if 0 < x then PosInfinity else NegInfinity)
           else Finite (if 0 < x then r else - r))"

text \<open>The operator \<^verbatim>\<open>*\<close> on numbers.\<close>

fun js_mul :: "number \<Rightarrow> number \<Rightarrow> number" where
  "js_mul (Finite a) (Finite b) = to_double (a * b)"
| "js_mul NaN _ = NaN"
| "js_mul _ NaN = NaN"
| "js_mul (Finite a) PosInfinity =
     (if a = 0 then NaN else if 0 < a then PosInfinity else NegInfinity)"
| "js_mul (Finite a) NegInfinity =
     (if a = 0 then NaN else if 0 < a then NegInfinity else PosInfinity)"
| "js_mul PosInfinity (Finite b) =
     (if b = 0 then NaN else if 0 < b then PosInfinity else NegInfinity)"
| "js_mul NegInfinity (Finite b) =
     (if b = 0 then NaN else if 0 < b then NegInfinity else PosInfinity)"
| "js_mul PosInfinity PosInfinity = PosInfinity"
| "js_mul NegInfinity NegInfinity = PosInfinity"
| "js_mul PosInfinity NegInfinity = NegInfinity"
| "js_mul NegInfinity PosInfinity = NegInfinity"

text \<open>The operator \<^verbatim>\<open>+\<close> on numbers.\<close>

fun js_add :: "number \<Rightarrow> number \<Rightarrow> number" where
  "js_add (Finite a) (Finite b) = to_double (a + b)"
| "js_add NaN _ = NaN"
| "js_add _ NaN = NaN"
| "js_add PosInfinity NegInfinity = NaN"
| "js_add NegInfinity PosInfinity = NaN"
| "js_add PosInfinity _ = PosInfinity"
| "js_add NegInfinity _ = NegInfinity"
| "js_add (Finite a) PosInfinity = PosInfinity"
| "js_add (Finite a) NegInfinity = NegInfinity"

text \<open>
  \<^verbatim>\<open>Math.round\<close>: the integer nearest to the argument, a tie going up; the result of
  rounding a binary64 value is again one, so nothing is rounded a second time.
\<close>

fun Math_round :: "number \<Rightarrow> number" where
  "Math_round (Finite x) = Finite (of_int \<lfloor>x + 1 / 2\<rfloor>)"
| "Math_round n = n"

section \<open>The data of the checkout page\<close>

record ShippingForm =
  fullName :: string
  streetAddress :: string
  city :: string
  state :: string
  postalCode :: string
  country :: string

record Product =
  product_id :: string
  product_name :: string
  product_price :: number
  imageUrl :: string

record CartItem =
  product :: Product
  quantity :: number
  item_size :: string
  color :: string

record User =
  user_id :: string

datatype Step = Shipping | Payment

text \<open>The object handed to \<^verbatim>\<open>supabase.from('orders').insert\<close>, and the row it becomes.\<close>

record OrderFields =
  o_user_id :: string
  o_total :: number
  o_status :: string
  o_shipping_address :: ShippingForm
  o_payment_method :: string

record OrderRow = OrderFields +
  row_id :: string

record OrderItem =
  oi_order_id :: string
  oi_product_id :: string
  oi_quantity :: number
  oi_size :: string
  oi_color :: string
  oi_price :: number

record Card =
  card_number :: string
  exp_month :: nat
  exp_year :: nat
  cvc :: string

record PaymentIntent =
  clientSecret :: "string option"

section \<open>Collaborators\<close>

text \<open>
  A value thrown inside \<^verbatim>\<open>handlePayment\<close>: the \<^verbatim>\<open>TypeError\<close> of a property read on
  \<^verbatim>\<open>null\<close>, the \<^verbatim>\<open>Error\<close> the page constructs itself, or an error object handed over by
  a collaborator (in the \<^verbatim>\<open>error\<close> field of a response, or as the reason of a rejected
  promise).
\<close>

datatype js_error = TypeError | Error string | ServiceError string

text \<open>What an awaited promise settles to.\<close>

datatype 'a settled = Fulfilled 'a | Rejected js_error

text \<open>
  The \<^verbatim>\<open>{ data, error }\<close> object the remote clients answer with. Their declarations
  make it a union of two shapes: data and no error, or an error and no data.
\<close>

datatype 'a response = Success 'a | Failure js_error

datatype Stripe = Stripe

text \<open>
  The answers of the remote services during one run of \<^verbatim>\<open>handlePayment\<close>. The page
  cannot influence them; every theorem below quantifies over them.
  \<^item> \<open>create_payment_intent\<close>: the answer of the \<^verbatim>\<open>create-payment-intent\<close> function, its
    data being whatever the function sent back, possibly \<^verbatim>\<open>null\<close> (\<open>None\<close>);
  \<^item> \<open>stripePromise\<close>: the Stripe client, or \<^verbatim>\<open>null\<close> (\<open>None\<close>);
  \<^item> \<open>confirmCardPayment\<close>: the answer of the card confirmation;
  \<^item> \<open>orders_insert\<close>: the answer of the insert into \<^verbatim>\<open>orders\<close> (with
    \<^verbatim>\<open>.select().single()\<close>), its data being the id of the stored row;
  \<^item> \<open>order_items_insert\<close>: the answer of the insert into \<^verbatim>\<open>order_items\<close>.
\<close>

record env =
  create_payment_intent :: "PaymentIntent option response settled"
  stripePromise :: "Stripe option settled"
  confirmCardPayment :: "unit response settled"
  orders_insert :: "string response settled"
  order_items_insert :: "unit response settled"

text \<open>
  The component's own state (\<open>step\<close>, \<open>isProcessing\<close>, \<open>shipping\<close>), the two stores it
  reads (\<open>user\<close> of the auth store, \<open>items\<close> of the cart store) and the two tables it
  writes.
\<close>

record world =
  step :: Step
  isProcessing :: bool
  shipping :: ShippingForm
  user :: "User option"
  items :: "CartItem list"
  orders :: "OrderRow list"
  order_items :: "OrderItem list"

text \<open>What the page does to the outside, in the order it does it.\<close>

datatype effect =
    SetIsProcessing bool
  | FunctionsInvoke string number string
  | AwaitStripe
  | ConfirmCardPayment "string option" Card
  | InsertOrder OrderFields
  | InsertOrderItems "OrderItem list"
  | ClearCart
  | Navigate string "string option"
  | ConsoleError string js_error
  | Alert string
  | PreventDefault
  | ScrollTo nat nat

text \<open>
  Modelled from the spec: \<^verbatim>\<open>clearCart\<close> of \<^verbatim>\<open>contexts/CartContext\<close>, which is not among the
  sources. The spec gives the cart store an operation \<^verbatim>\<open>clear()\<close>; it empties the list of
  line items.
\<close>

definition clearCart :: "world \<Rightarrow> world" where
  "clearCart w = w\<lparr>items := []\<rparr>"

text \<open>
  Modelled from the spec: the order repository behind \<^verbatim>\<open>lib/supabase\<close>, which is not among
  the sources. An insert that answers with data has stored what it was given; an insert
  that answers with an error, or whose promise is rejected, has stored nothing. The stored
  order row is the inserted object together with the id of the answer.
\<close>

definition order_row :: "OrderFields \<Rightarrow> string \<Rightarrow> OrderRow" where
  "order_row obj new_id =
     \<lparr>o_user_id = o_user_id obj, o_total = o_total obj, o_status = o_status obj,
      o_shipping_address = o_shipping_address obj, o_payment_method = o_payment_method obj,
      row_id = new_id\<rparr>"

definition store_order :: "string response settled \<Rightarrow> OrderFields \<Rightarrow> world \<Rightarrow> world" where
  "store_order answer obj w =
     (case answer of
        Fulfilled (Success new_id) \<Rightarrow> w\<lparr>orders := orders w @ [order_row obj new_id]\<rparr>
      | Fulfilled (Failure e) \<Rightarrow> w
      | Rejected e \<Rightarrow> w)"

definition store_order_items :: "unit response settled \<Rightarrow> OrderItem list \<Rightarrow> world \<Rightarrow> world" where
  "store_order_items answer rows w =
     (case answer of
        Fulfilled (Success u) \<Rightarrow> w\<lparr>order_items := order_items w @ rows\<rparr>
      | Fulfilled (Failure e) \<Rightarrow> w
      | Rejected e \<Rightarrow> w)"

section \<open>The checkout page\<close>

text \<open>
  \<^verbatim>\<open>totalPrice\<close> comes from the cart store at every render; it is a parameter here.
  Lines 22 and 23: \<^verbatim>\<open>tax = totalPrice * 0.1\<close> and \<^verbatim>\<open>totalAmount = totalPrice + tax\<close>, the
  literal \<^verbatim>\<open>0.1\<close> being the binary64 value nearest to one tenth.
\<close>

definition tax :: "number \<Rightarrow> number" where
  "tax totalPrice = js_mul totalPrice (to_double (1 / 10))"

definition totalAmount :: "number \<Rightarrow> number" where
  "totalAmount totalPrice = js_add totalPrice (tax totalPrice)"

text \<open>The guard of lines 37 to 44: two independent conditionals, in this order.\<close>

definition guard :: "world \<Rightarrow> effect list" where
  "guard w =
     (if items w = [] then [Navigate ''/cart'' None] else []) @
     (if user w = None then [Navigate ''/login'' (Some ''/checkout'')] else [])"

datatype ShippingField = FullName | StreetAddress | City | State | PostalCode | Country

text \<open>Lines 46 to 49: the changed input's name selects the field to overwrite.\<close>

fun handleShippingChange :: "ShippingField \<Rightarrow> string \<Rightarrow> world \<Rightarrow> world" where
  "handleShippingChange FullName v w = w\<lparr>shipping := (shipping w)\<lparr>fullName := v\<rparr>\<rparr>"
| "handleShippingChange StreetAddress v w = w\<lparr>shipping := (shipping w)\<lparr>streetAddress := v\<rparr>\<rparr>"
| "handleShippingChange City v w = w\<lparr>shipping := (shipping w)\<lparr>city := v\<rparr>\<rparr>"
| "handleShippingChange State v w = w\<lparr>shipping := (shipping w)\<lparr>state := v\<rparr>\<rparr>"
| "handleShippingChange PostalCode v w = w\<lparr>shipping := (shipping w)\<lparr>postalCode := v\<rparr>\<rparr>"
| "handleShippingChange Country v w = w\<lparr>shipping := (shipping w)\<lparr>country := v\<rparr>\<rparr>"

text \<open>Lines 51 to 55.\<close>

definition handleShippingSubmit :: "world \<Rightarrow> world \<times> effect list" where
  "handleShippingSubmit w = (w\<lparr>step := Payment\<rparr>, [PreventDefault, ScrollTo 0 0])"

subsection \<open>handlePayment\<close>

text \<open>
  The \<^verbatim>\<open>try\<close> block of \<^verbatim>\<open>handlePayment\<close> is cut at its awaits. Each part returns the value
  thrown (\<open>None\<close> when the block ran to its end), the world it leaves and the effects it
  had. The parts are given last to first, each calling the one that follows it in the
  source.
\<close>

type_synonym outcome = "js_error option \<times> world \<times> effect list"

text \<open>Lines 108 to 115: one row for each line of the cart.\<close>

definition orderItems :: "string \<Rightarrow> CartItem list \<Rightarrow> OrderItem list" where
  "orderItems oid its =
     map (\<lambda>item. \<lparr>oi_order_id = oid, oi_product_id = product_id (product item),
                  oi_quantity = quantity item, oi_size = item_size item,
                  oi_color = color item, oi_price = product_price (product item)\<rparr>) its"

text \<open>Lines 107 to 125: the rows of the order, then the cart and the navigation.\<close>

definition create_order_items :: "env \<Rightarrow> string \<Rightarrow> world \<Rightarrow> outcome" where
  "create_order_items env oid w =
     (let rows = orderItems oid (items w);
          w' = store_order_items (order_items_insert env) rows w
      in case order_items_insert env of
           Rejected e \<Rightarrow> (Some e, w', [InsertOrderItems rows])
         | Fulfilled (Failure itemsError) \<Rightarrow> (Some itemsError, w', [InsertOrderItems rows])
         | Fulfilled (Success u) \<Rightarrow>
             (None, clearCart w',
              [InsertOrderItems rows, ClearCart, Navigate (''/order-confirmation/'' @ oid) None]))"

text \<open>Lines 95 to 101: the object that is inserted into \<^verbatim>\<open>orders\<close>.\<close>

definition order_fields :: "User \<Rightarrow> number \<Rightarrow> world \<Rightarrow> OrderFields" where
  "order_fields u totalPrice w =
     \<lparr>o_user_id = user_id u, o_total = totalAmount totalPrice, o_status = ''processing'',
      o_shipping_address = shipping w, o_payment_method = ''stripe''\<rparr>"

text \<open>
  Lines 92 to 105: the order. \<^verbatim>\<open>user!.id\<close> is a plain property read at run time, a
  \<^verbatim>\<open>TypeError\<close> when there is no user.
\<close>

definition create_order :: "env \<Rightarrow> number \<Rightarrow> world \<Rightarrow> outcome" where
  "create_order env totalPrice w =
     (case user w of
        None \<Rightarrow> (Some TypeError, w, [])
      | Some u \<Rightarrow>
          (let obj = order_fields u totalPrice w;
               w' = store_order (orders_insert env) obj w
           in case orders_insert env of
                Rejected e \<Rightarrow> (Some e, w', [InsertOrder obj])
              | Fulfilled (Failure orderError) \<Rightarrow> (Some orderError, w', [InsertOrder obj])
              | Fulfilled (Success oid) \<Rightarrow>
                  (case create_order_items env oid w' of
                     (thrown, w'', effs) \<Rightarrow> (thrown, w'', InsertOrder obj # effs))))"

definition test_card :: Card where
  "test_card = \<lparr>card_number = ''4242424242424242'', exp_month = 12, exp_year = 2024, cvc = ''123''\<rparr>"

text \<open>
  Lines 76 to 90: the confirmation. Its first argument \<^verbatim>\<open>paymentIntent.clientSecret\<close> is
  read before the call, a \<^verbatim>\<open>TypeError\<close> when the data is \<^verbatim>\<open>null\<close>.
\<close>

definition confirm_payment :: "env \<Rightarrow> number \<Rightarrow> PaymentIntent option \<Rightarrow> world \<Rightarrow> outcome" where
  "confirm_payment env totalPrice paymentIntent w =
     (case paymentIntent of
        None \<Rightarrow> (Some TypeError, w, [])
      | Some intent \<Rightarrow>
          (let req = ConfirmCardPayment (clientSecret intent) test_card
           in case confirmCardPayment env of
                Rejected e \<Rightarrow> (Some e, w, [req])
              | Fulfilled (Failure stripeError) \<Rightarrow> (Some stripeError, w, [req])
              | Fulfilled (Success u) \<Rightarrow>
                  (case create_order env totalPrice w of
                     (thrown, w', effs) \<Rightarrow> (thrown, w', req # effs))))"

text \<open>Lines 72 to 74: the Stripe client.\<close>

definition load_stripe :: "env \<Rightarrow> number \<Rightarrow> PaymentIntent option \<Rightarrow> world \<Rightarrow> outcome" where
  "load_stripe env totalPrice paymentIntent w =
     (case stripePromise env of
        Rejected e \<Rightarrow> (Some e, w, [AwaitStripe])
      | Fulfilled None \<Rightarrow> (Some (Error ''Stripe failed to load''), w, [AwaitStripe])
      | Fulfilled (Some stripe) \<Rightarrow>
          (case confirm_payment env totalPrice paymentIntent w of
             (thrown, w', effs) \<Rightarrow> (thrown, w', AwaitStripe # effs)))"

text \<open>Lines 63 to 68: the request for a payment intent.\<close>

definition intent_request :: "number \<Rightarrow> effect" where
  "intent_request totalPrice =
     FunctionsInvoke ''create-payment-intent''
       (Math_round (js_mul (totalAmount totalPrice) (Finite 100))) ''usd''"

text \<open>Lines 61 to 70: the payment intent.\<close>

definition create_intent :: "env \<Rightarrow> number \<Rightarrow> world \<Rightarrow> outcome" where
  "create_intent env totalPrice w =
     (case create_payment_intent env of
        Rejected e \<Rightarrow> (Some e, w, [intent_request totalPrice])
      | Fulfilled (Failure paymentError) \<Rightarrow> (Some paymentError, w, [intent_request totalPrice])
      | Fulfilled (Success paymentIntent) \<Rightarrow>
          (case load_stripe env totalPrice paymentIntent w of
             (thrown, w', effs) \<Rightarrow> (thrown, w', intent_request totalPrice # effs)))"

text \<open>Lines 126 to 128: what the \<^verbatim>\<open>catch\<close> clause does with a thrown value.\<close>

definition catch_effects :: "js_error option \<Rightarrow> effect list" where
  "catch_effects thrown =
     (case thrown of
        None \<Rightarrow> []
      | Some e \<Rightarrow> [ConsoleError ''Payment failed:'' e, Alert ''Payment failed. Please try again.''])"

text \<open>Lines 57 to 132: \<^verbatim>\<open>try\<close>, \<^verbatim>\<open>catch\<close>, \<^verbatim>\<open>finally\<close>.\<close>

definition handlePayment :: "env \<Rightarrow> number \<Rightarrow> world \<Rightarrow> world \<times> effect list" where
  "handlePayment env totalPrice w =
     (case create_intent env totalPrice (w\<lparr>isProcessing := True\<rparr>) of
        (thrown, w', effs) \<Rightarrow>
          (w'\<lparr>isProcessing := False\<rparr>,
           SetIsProcessing True # effs @ catch_effects thrown @ [SetIsProcessing False]))"

subsection \<open>What the rendered page lets the user do\<close>

datatype event = Change ShippingField string | SubmitShipping | ClickPay | ClickBack

text \<open>The six inputs of the shipping form carry \<^verbatim>\<open>required\<close>: the form is not submitted
  while one of them is empty.\<close>

definition required_filled :: "ShippingForm \<Rightarrow> bool" where
  "required_filled f \<longleftrightarrow>
     fullName f \<noteq> [] \<and> streetAddress f \<noteq> [] \<and> city f \<noteq> [] \<and> state f \<noteq> [] \<and>
     postalCode f \<noteq> [] \<and> country f \<noteq> []"

text \<open>
  Lines 134 to 312: the handler the rendered page calls on an event, if any. Nothing is
  rendered without a user or with an empty cart. At the shipping step the form is there;
  at the payment step the two buttons are, both \<^verbatim>\<open>disabled\<close> while \<open>isProcessing\<close> holds,
  and a disabled button does not call its handler.
\<close>

datatype handler = NoHandler | OnChange ShippingField string | OnSubmit | OnPay | OnBack

definition handler_for :: "event \<Rightarrow> world \<Rightarrow> handler" where
  "handler_for ev w =
     (if user w = None \<or> items w = [] then NoHandler
      else case (step w, ev) of
          (Shipping, Change name v) \<Rightarrow> OnChange name v
        | (Shipping, SubmitShipping) \<Rightarrow>
            (if required_filled (shipping w) then OnSubmit else NoHandler)
        | (Payment, ClickPay) \<Rightarrow> (if isProcessing w then NoHandler else OnPay)
        | (Payment, ClickBack) \<Rightarrow> (if isProcessing w then NoHandler else OnBack)
        | _ \<Rightarrow> NoHandler)"

subsection \<open>The page between the awaits and between the renders\<close>

text \<open>
  \<^verbatim>\<open>handlePayment\<close> is asynchronous: it returns to the browser at each of its five awaits,
  and the page can receive events until the awaited answer arrives. A payment in flight
  is the await it stands at, with what the rest of the function needs, and the values
  the function's closure captured: those of the render whose Pay button was clicked.
\<close>

datatype stage =
    AwaitIntent
  | AwaitStripeClient "PaymentIntent option"
  | AwaitConfirm
  | AwaitOrder OrderFields
  | AwaitItems string "OrderItem list"

record flight =
  stage :: stage
  seen :: world
  price :: number

text \<open>
  A state setter (\<^verbatim>\<open>setStep\<close>, \<^verbatim>\<open>setIsProcessing\<close>, \<^verbatim>\<open>setShipping\<close>) only queues its
  update. What is on the screen, the \<^verbatim>\<open>disabled\<close> attributes of lines 296 and 305 and the
  closures of the handlers, is that of the last committed render until React renders
  again. \<open>now\<close> is the state with every queued update applied, next to the stores and the
  tables as they are; \<open>shown\<close> is what the last committed render read. Nothing in
  \<^verbatim>\<open>handlePayment\<close> keeps a second call from starting, so \<open>pending\<close> is a list, the oldest
  flight first.
\<close>

record page =
  now :: world
  shown :: world
  pending :: "flight list"

datatype answer =
    IntentAnswered "PaymentIntent option response settled"
  | StripeLoaded "Stripe option settled"
  | ConfirmAnswered "unit response settled"
  | OrderAnswered "string response settled"
  | ItemsAnswered "unit response settled"

text \<open>
  What happens next on the page: an event of the user, the answer that the flight at a
  position of \<open>pending\<close> waits for, or a render committed by React.
\<close>

datatype action = UserDoes event | Settles nat answer | Commit

text \<open>
  What the user acts on: the committed render, whose inputs hold what was typed into
  them (the browser checks \<^verbatim>\<open>required\<close> on the inputs themselves).
\<close>

definition view :: "page \<Rightarrow> world" where
  "view p = (shown p)\<lparr>shipping := shipping (now p)\<rparr>"

text \<open>
  Line 59 and the call of lines 62 to 68, up to the first await: the flag is queued, the
  request leaves, and the flight holds the values of the render that was clicked.
\<close>

definition start_payment :: "number \<Rightarrow> page \<Rightarrow> page \<times> effect list" where
  "start_payment totalPrice p =
     (p\<lparr>now := (now p)\<lparr>isProcessing := True\<rparr>,
        pending := pending p @ [\<lparr>stage = AwaitIntent, seen = shown p, price = totalPrice\<rparr>]\<rparr>,
      [SetIsProcessing True, intent_request totalPrice])"

text \<open>
  A flight resumed on an answer gives the flight that goes on waiting (\<open>None\<close> when the
  function has returned), the state it leaves and the effects it had.
\<close>

type_synonym resumed = "flight option \<times> world \<times> effect list"

text \<open>A throw: the \<^verbatim>\<open>catch\<close> and \<^verbatim>\<open>finally\<close> clauses, and the end of the flight.\<close>

definition abort :: "js_error \<Rightarrow> world \<Rightarrow> resumed" where
  "abort e w = (None, w\<lparr>isProcessing := False\<rparr>, catch_effects (Some e) @ [SetIsProcessing False])"

definition await_next :: "stage \<Rightarrow> flight \<Rightarrow> world \<Rightarrow> effect list \<Rightarrow> resumed" where
  "await_next st fl w effs = (Some (fl\<lparr>stage := st\<rparr>), w, effs)"

text \<open>The function from one await to the next, on the answer it was waiting for.\<close>

fun resume :: "stage \<Rightarrow> answer \<Rightarrow> flight \<Rightarrow> world \<Rightarrow> resumed" where
  "resume AwaitIntent (IntentAnswered a) fl w =
     (case a of
        Rejected e \<Rightarrow> abort e w
      | Fulfilled (Failure paymentError) \<Rightarrow> abort paymentError w
      | Fulfilled (Success paymentIntent) \<Rightarrow>
          await_next (AwaitStripeClient paymentIntent) fl w [AwaitStripe])"
| "resume (AwaitStripeClient paymentIntent) (StripeLoaded a) fl w =
     (case a of
        Rejected e \<Rightarrow> abort e w
      | Fulfilled None \<Rightarrow> abort (Error ''Stripe failed to load'') w
      | Fulfilled (Some stripe) \<Rightarrow>
          (case paymentIntent of
             None \<Rightarrow> abort TypeError w
           | Some intent \<Rightarrow>
               await_next AwaitConfirm fl w [ConfirmCardPayment (clientSecret intent) test_card]))"
| "resume AwaitConfirm (ConfirmAnswered a) fl w =
     (case a of
        Rejected e \<Rightarrow> abort e w
      | Fulfilled (Failure stripeError) \<Rightarrow> abort stripeError w
      | Fulfilled (Success u) \<Rightarrow>
          (case user (seen fl) of
             None \<Rightarrow> abort TypeError w
           | Some u \<Rightarrow>
               (let obj = order_fields u (price fl) (seen fl)
                in await_next (AwaitOrder obj) fl w [InsertOrder obj])))"
| "resume (AwaitOrder obj) (OrderAnswered a) fl w =
     (let w' = store_order a obj w
      in case a of
           Rejected e \<Rightarrow> abort e w'
         | Fulfilled (Failure orderError) \<Rightarrow> abort orderError w'
         | Fulfilled (Success oid) \<Rightarrow>
             (let rows = orderItems oid (items (seen fl))
              in await_next (AwaitItems oid rows) fl w' [InsertOrderItems rows]))"
| "resume (AwaitItems oid rows) (ItemsAnswered a) fl w =
     (let w' = store_order_items a rows w
      in case a of
           Rejected e \<Rightarrow> abort e w'
         | Fulfilled (Failure itemsError) \<Rightarrow> abort itemsError w'
         | Fulfilled (Success u) \<Rightarrow>
             (None, (clearCart w')\<lparr>isProcessing := False\<rparr>,
              [ClearCart, Navigate (''/order-confirmation/'' @ oid) None, SetIsProcessing False]))"
| "resume st a fl w = (Some fl, w, [])"

text \<open>An answer reaches the flight at position \<open>k\<close>; a flight that has returned leaves the list.\<close>

definition settle :: "nat \<Rightarrow> answer \<Rightarrow> page \<Rightarrow> page \<times> effect list" where
  "settle k a p =
     (if k < length (pending p) then
        (case resume (stage (pending p ! k)) a (pending p ! k) (now p) of
           (None, w', effs) \<Rightarrow>
             (p\<lparr>now := w', pending := take k (pending p) @ drop (Suc k) (pending p)\<rparr>, effs)
         | (Some fl', w', effs) \<Rightarrow> (p\<lparr>now := w', pending := (pending p)[k := fl']\<rparr>, effs))
      else (p, []))"

text \<open>
  One step of the page. The handler of an event is the one the committed render
  attached; the updates it queues go to \<open>now\<close>, and a render makes them the page shown.
\<close>

definition page_step :: "number \<Rightarrow> action \<Rightarrow> page \<Rightarrow> page \<times> effect list" where
  "page_step totalPrice act p =
     (case act of
        UserDoes ev \<Rightarrow>
          (case handler_for ev (view p) of
             NoHandler \<Rightarrow> (p, [])
           | OnChange name v \<Rightarrow> (p\<lparr>now := handleShippingChange name v (now p)\<rparr>, [])
           | OnSubmit \<Rightarrow>
               (case handleShippingSubmit (now p) of (w', effs) \<Rightarrow> (p\<lparr>now := w'\<rparr>, effs))
           | OnPay \<Rightarrow> start_payment totalPrice p
           | OnBack \<Rightarrow> (p\<lparr>now := (now p)\<lparr>step := Shipping\<rparr>\<rparr>, []))
      | Settles k a \<Rightarrow> settle k a p
      | Commit \<Rightarrow> (p\<lparr>shown := now p\<rparr>, []))"

fun run_page :: "number \<Rightarrow> action list \<Rightarrow> page \<Rightarrow> page \<times> effect list" where
  "run_page totalPrice [] p = (p, [])"
| "run_page totalPrice (act # acts) p =
     (case page_step totalPrice act p of
        (p', effs) \<Rightarrow>
          (case run_page totalPrice acts p' of (p'', effs') \<Rightarrow> (p'', effs @ effs')))"

text \<open>
  React commits the render an event asked for before the browser delivers the next event
  of a user; two events dispatched by a script in one turn of the event loop are not
  kept apart so. The run in which every event of the user is followed by a render:
\<close>

fun promptly :: "action list \<Rightarrow> action list" where
  "promptly [] = []"
| "promptly (UserDoes ev # acts) = UserDoes ev # Commit # promptly acts"
| "promptly (Settles k a # acts) = Settles k a # promptly acts"
| "promptly (Commit # acts) = Commit # promptly acts"

text \<open>The answers of an environment to the one flight of a page, in the order
  \<^verbatim>\<open>handlePayment\<close> awaits them.\<close>

definition answers :: "env \<Rightarrow> action list" where
  "answers env =
     [Settles 0 (IntentAnswered (create_payment_intent env)),
      Settles 0 (StripeLoaded (stripePromise env)),
      Settles 0 (ConfirmAnswered (confirmCardPayment env)),
      Settles 0 (OrderAnswered (orders_insert env)),
      Settles 0 (ItemsAnswered (order_items_insert env))]"

text \<open>The initial state of lines 25 to 35, with the user, the cart and the tables the
  page is entered with.\<close>

definition initial_state :: "User option \<Rightarrow> CartItem list \<Rightarrow> OrderRow list \<Rightarrow> OrderItem list \<Rightarrow> world" where
  "initial_state u its os ois =
     \<lparr>step = Shipping, isProcessing = False,
      shipping = \<lparr>fullName = [], streetAddress = [], city = [], state = [],
                  postalCode = [], country = ''USA''\<rparr>,
      user = u, items = its, orders = os, order_items = ois\<rparr>"

text \<open>The page as it is entered: its first render, nothing queued, nothing in flight.\<close>

definition enter :: "User option \<Rightarrow> CartItem list \<Rightarrow> OrderRow list \<Rightarrow> OrderItem list \<Rightarrow> page" where
  "enter u its os ois =
     \<lparr>now = initial_state u its os ois, shown = initial_state u its os ois, pending = []\<rparr>"

text \<open>Entering the page: the first render, and the guard of lines 37 to 44, which is its
  effect.\<close>

definition mount :: "User option \<Rightarrow> CartItem list \<Rightarrow> OrderRow list \<Rightarrow> OrderItem list \<Rightarrow> page \<times> effect list" where
  "mount u its os ois = (enter u its os ois, guard (shown (enter u its os ois)))"

text \<open>
  The router: \<^verbatim>\<open>navigate\<close> replaces the location, so of several navigations the last one
  is where the visitor ends.
\<close>

fun location_after :: "string \<Rightarrow> effect list \<Rightarrow> string" where
  "location_after loc [] = loc"
| "location_after loc (Navigate path st # effs) = location_after path effs"
| "location_after loc (e # effs) = location_after loc effs"

text \<open>The calls that leave the browser, out of a list of effects.\<close>

fun is_remote :: "effect \<Rightarrow> bool" where
  "is_remote (FunctionsInvoke f a c) = True"
| "is_remote (ConfirmCardPayment s c) = True"
| "is_remote (InsertOrder obj) = True"
| "is_remote (InsertOrderItems rows) = True"
| "is_remote e = False"

definition remote_calls :: "effect list \<Rightarrow> effect list" where
  "remote_calls effs = filter is_remote effs"

text \<open>Filling in the six inputs and submitting the form, as one operation on a form.\<close>

definition submitShipping :: "number \<Rightarrow> ShippingForm \<Rightarrow> page \<Rightarrow> page \<times> effect list" where
  "submitShipping totalPrice f p =
     run_page totalPrice
       [UserDoes (Change FullName (fullName f)), UserDoes (Change StreetAddress (streetAddress f)),
        UserDoes (Change City (city f)), UserDoes (Change State (state f)),
        UserDoes (Change PostalCode (postalCode f)), UserDoes (Change Country (country f)),
        UserDoes SubmitShipping] p"

subsection \<open>Recognisers of effects\<close>

fun is_confirm :: "effect \<Rightarrow> bool" where
  "is_confirm (ConfirmCardPayment s c) = True"
| "is_confirm e = False"

fun is_insert_order :: "effect \<Rightarrow> bool" where
  "is_insert_order (InsertOrder obj) = True"
| "is_insert_order e = False"

fun is_insert_items :: "effect \<Rightarrow> bool" where
  "is_insert_items (InsertOrderItems rows) = True"
| "is_insert_items e = False"

fun is_navigate :: "effect \<Rightarrow> bool" where
  "is_navigate (Navigate path st) = True"
| "is_navigate e = False"

fun is_alert :: "effect \<Rightarrow> bool" where
  "is_alert (Alert msg) = True"
| "is_alert e = False"

text \<open>The value a settled answer makes \<^verbatim>\<open>handlePayment\<close> throw, if any.\<close>

fun raised :: "'a response settled \<Rightarrow> js_error option" where
  "raised (Fulfilled (Success x)) = None"
| "raised (Fulfilled (Failure e)) = Some e"
| "raised (Rejected e) = Some e"

subsection \<open>Sample data\<close>

definition sample_shipping :: ShippingForm where
  "sample_shipping =
     \<lparr>fullName = ''Ada Byron'', streetAddress = ''12 Mill Lane'', city = ''Leeds'',
      state = ''WY'', postalCode = ''LS1'', country = ''UK''\<rparr>"

definition empty_shipping :: ShippingForm where
  "empty_shipping =
     \<lparr>fullName = [], streetAddress = [], city = [], state = [], postalCode = [],
      country = ''USA''\<rparr>"

definition shirt :: CartItem where
  "shirt =
     \<lparr>product = \<lparr>product_id = ''p1'', product_name = ''Shirt'', product_price = Finite 20,
                  imageUrl = ''shirt.png''\<rparr>,
      quantity = Finite 2, item_size = ''M'', color = ''blue''\<rparr>"

definition scarf :: CartItem where
  "scarf =
     \<lparr>product = \<lparr>product_id = ''p2'', product_name = ''Scarf'', product_price = Finite 60,
                  imageUrl = ''scarf.png''\<rparr>,
      quantity = Finite 1, item_size = ''one'', color = ''red''\<rparr>"

definition ada :: User where
  "ada = \<lparr>user_id = ''u7''\<rparr>"

text \<open>The page as it is entered, with a user and two lines in the cart.\<close>

definition at_shipping :: world where
  "at_shipping =
     \<lparr>step = Shipping, isProcessing = False, shipping = empty_shipping, user = Some ada,
      items = [shirt, scarf], orders = [], order_items = []\<rparr>"

definition at_payment :: world where
  "at_payment = at_shipping\<lparr>step := Payment, shipping := sample_shipping\<rparr>"

definition in_flight :: world where
  "in_flight = at_payment\<lparr>isProcessing := True\<rparr>"

definition nobody_nothing :: world where
  "nobody_nothing = at_shipping\<lparr>user := None, items := []\<rparr>"

text \<open>Every service answers well; the repository names the new order \<open>o42\<close>.\<close>

definition all_well :: env where
  "all_well =
     \<lparr>create_payment_intent = Fulfilled (Success (Some \<lparr>clientSecret = Some ''cs_1''\<rparr>)),
      stripePromise = Fulfilled (Some Stripe),
      confirmCardPayment = Fulfilled (Success ()),
      orders_insert = Fulfilled (Success ''o42''),
      order_items_insert = Fulfilled (Success ())\<rparr>"

text \<open>One service failing, the others as in \<open>all_well\<close>.\<close>

definition intent_refused :: env where
  "intent_refused =
     all_well\<lparr>create_payment_intent := Fulfilled (Failure (ServiceError ''no intent''))\<rparr>"

definition stripe_absent :: env where
  "stripe_absent = all_well\<lparr>stripePromise := Fulfilled None\<rparr>"

definition card_declined :: env where
  "card_declined =
     all_well\<lparr>confirmCardPayment := Fulfilled (Failure (ServiceError ''card declined''))\<rparr>"

definition orders_down :: env where
  "orders_down = all_well\<lparr>orders_insert := Fulfilled (Failure (ServiceError ''orders down''))\<rparr>"

definition items_down :: env where
  "items_down = all_well\<lparr>order_items_insert := Rejected (ServiceError ''network'')\<rparr>"

text \<open>A cart of one mug at 8.25, at the payment step.\<close>

definition mug :: CartItem where
  "mug =
     \<lparr>product = \<lparr>product_id = ''p3'', product_name = ''Mug'', product_price = Finite (33 / 4),
                  imageUrl = ''mug.png''\<rparr>,
      quantity = Finite 1, item_size = ''one'', color = ''white''\<rparr>"

definition mug_at_payment :: world where
  "mug_at_payment = at_payment\<lparr>items := [mug]\<rparr>"

subsection \<open>The amount asked of the gateway\<close>

text \<open>The amount and the currency of a request for a payment intent.\<close>

fun requested :: "effect \<Rightarrow> (number \<times> string) option" where
  "requested (FunctionsInvoke f amount currency) = Some (amount, currency)"
| "requested e = None"

definition sent_to_gateway :: "env \<Rightarrow> number \<Rightarrow> world \<Rightarrow> (number \<times> string) list" where
  "sent_to_gateway env totalPrice w = List.map_filter requested (snd (handlePayment env totalPrice w))"

text \<open>
  The formula of the specification, \<^verbatim>\<open>round(subtotal * 1.1 * 100)\<close>, read in two ways:
  in exact arithmetic, a half rounded up as \<^verbatim>\<open>Math.round\<close> does; and as the JavaScript
  expression \<^verbatim>\<open>Math.round(subtotal * 1.1 * 100)\<close>.
\<close>

definition spec_amount :: "rat \<Rightarrow> int" where
  "spec_amount subtotal = \<lfloor>subtotal * (11 / 10) * 100 + 1 / 2\<rfloor>"

definition spec_amount_js :: "number \<Rightarrow> number" where
  "spec_amount_js subtotal = Math_round (js_mul (js_mul subtotal (to_double (11 / 10))) (Finite 100))"

text \<open>
  What holds of the page between two events when a render follows each of them: the step
  shown is the step queued, a flag that is shown is shown at the payment step, and either
  nothing is in flight and no flag is queued, or one payment is and the flag is on the screen.
\<close>

definition caught_up :: "page \<Rightarrow> bool" where
  "caught_up p \<longleftrightarrow>
     step (shown p) = step (now p) \<and>
     (isProcessing (shown p) \<longrightarrow> step (shown p) = Payment) \<and>
     (if pending p = [] then \<not> isProcessing (now p)
      else length (pending p) = 1 \<and> isProcessing (shown p) \<and> isProcessing (now p))"

text \<open>Entering with a user and two cart lines, typing the form, submitting it, clicking Pay.\<close>

definition entered :: page where
  "entered = enter (Some ada) [shirt, scarf] [] []"

definition to_the_payment_step :: "action list" where
  "to_the_payment_step =
     [UserDoes (Change FullName ''Ada Byron''), UserDoes (Change StreetAddress ''12 Mill Lane''),
      UserDoes (Change City ''Leeds''), UserDoes (Change State ''WY''),
      UserDoes (Change PostalCode ''LS1''), UserDoes (Change Country ''UK''),
      UserDoes SubmitShipping]"

definition to_the_click :: "action list" where
  "to_the_click = to_the_payment_step @ [UserDoes ClickPay]"

text \<open>The payment step on the screen, nothing in flight.\<close>

definition ready :: page where
  "ready = \<lparr>now = at_payment, shown = at_payment, pending = []\<rparr>"

text \<open>The flight of a click on the Pay button of \<open>ready\<close>.\<close>

definition first_flight :: flight where
  "first_flight = \<lparr>stage = AwaitIntent, seen = at_payment, price = Finite 100\<rparr>"

text \<open>After the click: before the render that follows it, and after.\<close>

definition clicked :: page where
  "clicked = \<lparr>now = in_flight, shown = at_payment, pending = [first_flight]\<rparr>"

definition paying :: page where
  "paying = \<lparr>now = in_flight, shown = in_flight, pending = [first_flight]\<rparr>"

text \<open>A click on Back after the click on Pay and before the render, and the render
  that comes then.\<close>

definition gone_back :: page where
  "gone_back =
     \<lparr>now = in_flight\<lparr>step := Shipping\<rparr>, shown = in_flight\<lparr>step := Shipping\<rparr>,
      pending = [first_flight]\<rparr>"

text \<open>Worlds for the guard: a user with an empty cart, and a cart with nobody logged in.\<close>

definition empty_cart :: world where
  "empty_cart = at_shipping\<lparr>items := []\<rparr>"

definition logged_out :: world where
  "logged_out = at_shipping\<lparr>user := None\<rparr>"

section \<open>Properties\<close>

lemma remote_calls_Nil [simp]: "remote_calls [] = []"
  by (simp add: remote_calls_def)

lemma remote_calls_Cons [simp]:
  "remote_calls (e # es) = (if is_remote e then e # remote_calls es else remote_calls es)"
  by (simp add: remote_calls_def)

lemma remote_calls_append [simp]:
  "remote_calls (es @ es') = remote_calls es @ remote_calls es'"
  by (simp add: remote_calls_def)

subsection \<open>The shipping step\<close>

lemma view_fields [simp]:
  "step (view p) = step (shown p)" "isProcessing (view p) = isProcessing (shown p)"
  "user (view p) = user (shown p)" "items (view p) = items (shown p)"
  "shipping (view p) = shipping (now p)"
  by (simp_all add: view_def)

lemma page_step_Change:
  "step (shown p) = Shipping \<Longrightarrow> user (shown p) \<noteq> None \<Longrightarrow> items (shown p) \<noteq> [] \<Longrightarrow>
   page_step tp (UserDoes (Change name v)) p = (p\<lparr>now := handleShippingChange name v (now p)\<rparr>, [])"
  by (simp add: page_step_def handler_for_def del: not_None_eq)

lemma handleShippingChange_keeps:
  "step (handleShippingChange name v w) = step w \<and>
   user (handleShippingChange name v w) = user w \<and>
   items (handleShippingChange name v w) = items w \<and>
   isProcessing (handleShippingChange name v w) = isProcessing w"
  by (cases name) simp_all

lemma fill_in_form:
  "handleShippingChange Country (country f)
     (handleShippingChange PostalCode (postalCode f)
       (handleShippingChange State (state f)
         (handleShippingChange City (city f)
           (handleShippingChange StreetAddress (streetAddress f)
             (handleShippingChange FullName (fullName f) w))))) = w\<lparr>shipping := f\<rparr>"
  by simp

text \<open>The same typing and submitting, a render after each event.\<close>

lemma submit_with_renders:
  assumes "required_filled f" and "step (shown p) = Shipping"
      and "user (shown p) \<noteq> None" and "items (shown p) \<noteq> []" and "shown p = now p"
  shows "run_page tp
       (promptly
         [UserDoes (Change FullName (fullName f)), UserDoes (Change StreetAddress (streetAddress f)),
          UserDoes (Change City (city f)), UserDoes (Change State (state f)),
          UserDoes (Change PostalCode (postalCode f)), UserDoes (Change Country (country f)),
          UserDoes SubmitShipping]) p =
     (p\<lparr>now := (now p)\<lparr>shipping := f, step := Payment\<rparr>,
        shown := (now p)\<lparr>shipping := f, step := Payment\<rparr>\<rparr>, [PreventDefault, ScrollTo 0 0])"
  using assms
  by (simp add: page_step_def handler_for_def handleShippingSubmit_def required_filled_def
      del: not_None_eq)

text \<open>
  C7. For every shipping form with all six fields non-empty: typing it into the rendered
  form of the shipping step and submitting leaves the form stored in \<open>shipping\<close>, moves
  the step from \<open>Shipping\<close> to \<open>Payment\<close>, and has no remote call among its effects (the
  handler only prevents the default submission and scrolls to the top). The render that
  follows shows the payment step with the form; and if a render follows each of the
  seven events, the outcome is the same.
\<close>

theorem submitShipping_moves_to_payment:
  assumes "required_filled f" and "step (shown p) = Shipping"
      and "user (shown p) \<noteq> None" and "items (shown p) \<noteq> []"
  shows "submitShipping tp f p =
           (p\<lparr>now := (now p)\<lparr>shipping := f, step := Payment\<rparr>\<rparr>, [PreventDefault, ScrollTo 0 0]) \<and>
         remote_calls (snd (submitShipping tp f p)) = [] \<and>
         page_step tp Commit (fst (submitShipping tp f p)) =
           (p\<lparr>now := (now p)\<lparr>shipping := f, step := Payment\<rparr>,
              shown := (now p)\<lparr>shipping := f, step := Payment\<rparr>\<rparr>, []) \<and>
         (shown p = now p \<longrightarrow>
            run_page tp
              (promptly
                [UserDoes (Change FullName (fullName f)),
                 UserDoes (Change StreetAddress (streetAddress f)),
                 UserDoes (Change City (city f)), UserDoes (Change State (state f)),
                 UserDoes (Change PostalCode (postalCode f)),
                 UserDoes (Change Country (country f)), UserDoes SubmitShipping]) p =
            (p\<lparr>now := (now p)\<lparr>shipping := f, step := Payment\<rparr>,
               shown := (now p)\<lparr>shipping := f, step := Payment\<rparr>\<rparr>,
             [PreventDefault, ScrollTo 0 0]))"
proof -
  let ?p6 = "p\<lparr>now := (now p)\<lparr>shipping := f\<rparr>\<rparr>"
  have filled: "run_page tp
       [UserDoes (Change FullName (fullName f)), UserDoes (Change StreetAddress (streetAddress f)),
        UserDoes (Change City (city f)), UserDoes (Change State (state f)),
        UserDoes (Change PostalCode (postalCode f)), UserDoes (Change Country (country f)),
        UserDoes SubmitShipping] p = run_page tp [UserDoes SubmitShipping] ?p6"
    using assms(2-4)
    by (simp add: page_step_Change handleShippingChange_keeps fill_in_form
        del: handleShippingChange.simps not_None_eq)
  have "handler_for SubmitShipping (view ?p6) = OnSubmit"
    using assms by (simp add: handler_for_def del: not_None_eq)
  then have "run_page tp [UserDoes SubmitShipping] ?p6 =
      (p\<lparr>now := (now p)\<lparr>shipping := f, step := Payment\<rparr>\<rparr>, [PreventDefault, ScrollTo 0 0])"
    by (simp add: page_step_def handleShippingSubmit_def)
  with filled have "submitShipping tp f p =
      (p\<lparr>now := (now p)\<lparr>shipping := f, step := Payment\<rparr>\<rparr>, [PreventDefault, ScrollTo 0 0])"
    by (simp add: submitShipping_def)
  then show ?thesis
    using submit_with_renders [OF assms, of tp]
    by (simp add: page_step_def)
qed

theorem submitShipping_moves_to_payment_witness:
  "required_filled sample_shipping \<and> step (shown entered) = Shipping \<and>
   submitShipping (Finite 100) sample_shipping entered =
     (\<lparr>now = at_payment, shown = at_shipping, pending = []\<rparr>, [PreventDefault, ScrollTo 0 0]) \<and>
   remote_calls (snd (submitShipping (Finite 100) sample_shipping entered)) = [] \<and>
   page_step (Finite 100) Commit (fst (submitShipping (Finite 100) sample_shipping entered)) =
     (ready, []) \<and>
   shown entered = now entered \<and>
   run_page (Finite 100) (promptly to_the_payment_step) entered =
     (ready, [PreventDefault, ScrollTo 0 0])"
proof -
  have a: "required_filled sample_shipping"
    by (simp add: required_filled_def sample_shipping_def)
  have b: "step (shown entered) = Shipping" "user (shown entered) \<noteq> None"
    "items (shown entered) \<noteq> []"
    by (simp_all add: entered_def enter_def initial_state_def)
  have c: "entered = \<lparr>now = at_shipping, shown = at_shipping, pending = []\<rparr>"
    by (simp add: entered_def enter_def initial_state_def at_shipping_def empty_shipping_def)
  have d: "at_shipping\<lparr>shipping := sample_shipping, step := Payment\<rparr> = at_payment"
    by (simp add: at_payment_def)
  have e: "fullName sample_shipping = ''Ada Byron''"
    "streetAddress sample_shipping = ''12 Mill Lane''" "city sample_shipping = ''Leeds''"
    "state sample_shipping = ''WY''" "postalCode sample_shipping = ''LS1''"
    "country sample_shipping = ''UK''"
    by (simp_all add: sample_shipping_def)
  show ?thesis
    using submitShipping_moves_to_payment [OF a b, of "Finite 100"] a b
    by (simp add: c d e ready_def page_step_def to_the_payment_step_def)
qed

subsection \<open>The entry guard\<close>

text \<open>
  C6. Whenever the guard runs (it is the effect of the first render and of every render
  in which the cart, the user or the navigation function changed): the navigation to
  \<^verbatim>\<open>/cart\<close> is issued exactly when the cart is empty, whatever the user is; the navigation
  to \<^verbatim>\<open>/login\<close>, carrying \<^verbatim>\<open>/checkout\<close> as the path to return to, is issued exactly when
  there is no user, whatever the cart holds; and nothing else is issued. With an empty
  cart and a user the visitor ends at \<^verbatim>\<open>/cart\<close>. With no user the navigation to \<^verbatim>\<open>/login\<close>
  is the last one, so the visitor ends at \<^verbatim>\<open>/login\<close>, also when the cart is empty. With
  a user and a cart that is not empty nothing is issued and the visitor stays. Entering
  the page runs the guard on the user and the cart it is entered with.
\<close>

theorem guard_redirects:
  "(Navigate ''/cart'' None \<in> set (guard w) \<longleftrightarrow> items w = []) \<and>
   (Navigate ''/login'' (Some ''/checkout'') \<in> set (guard w) \<longleftrightarrow> user w = None) \<and>
   set (guard w) \<subseteq> {Navigate ''/cart'' None, Navigate ''/login'' (Some ''/checkout'')} \<and>
   (items w = [] \<and> user w \<noteq> None \<longrightarrow>
      guard w = [Navigate ''/cart'' None] \<and> location_after loc (guard w) = ''/cart'') \<and>
   (user w = None \<longrightarrow>
      location_after loc (guard w) = ''/login'' \<and>
      last (guard w) = Navigate ''/login'' (Some ''/checkout'')) \<and>
   (items w \<noteq> [] \<and> user w \<noteq> None \<longrightarrow> guard w = [] \<and> location_after loc (guard w) = loc) \<and>
   snd (mount u its os ois) =
     (if its = [] then [Navigate ''/cart'' None] else []) @
     (if u = None then [Navigate ''/login'' (Some ''/checkout'')] else [])"
  by (auto simp: guard_def mount_def enter_def initial_state_def)

theorem guard_redirects_witness:
  "items empty_cart = [] \<and> user empty_cart \<noteq> None \<and>
   guard empty_cart = [Navigate ''/cart'' None] \<and>
   location_after ''/checkout'' (guard empty_cart) = ''/cart'' \<and>
   items logged_out \<noteq> [] \<and> user logged_out = None \<and>
   Navigate ''/cart'' None \<notin> set (guard logged_out) \<and>
   last (guard logged_out) = Navigate ''/login'' (Some ''/checkout'') \<and>
   location_after ''/checkout'' (guard logged_out) = ''/login'' \<and>
   items nobody_nothing = [] \<and> user nobody_nothing = None \<and>
   Navigate ''/cart'' None \<in> set (guard nobody_nothing) \<and>
   location_after ''/checkout'' (guard nobody_nothing) = ''/login'' \<and>
   items at_shipping \<noteq> [] \<and> user at_shipping \<noteq> None \<and>
   guard at_shipping = [] \<and>
   location_after ''/checkout'' (guard at_shipping) = ''/checkout'' \<and>
   snd (mount (Some ada) [] [] []) = [Navigate ''/cart'' None]"
proof -
  have a: "items empty_cart = []" "user empty_cart \<noteq> None"
    "items logged_out \<noteq> []" "user logged_out = None"
    "items nobody_nothing = []" "user nobody_nothing = None"
    "items at_shipping \<noteq> []" "user at_shipping \<noteq> None"
    by (simp_all add: empty_cart_def logged_out_def nobody_nothing_def at_shipping_def)
  show ?thesis
    using guard_redirects [of empty_cart "''/checkout''" "Some ada" "[]" "[]" "[]"]
      guard_redirects [of logged_out "''/checkout''"]
      guard_redirects [of nobody_nothing "''/checkout''"]
      guard_redirects [of at_shipping "''/checkout''"] a
    by simp
qed

text \<open>
  C6, as the specification has it, fails where there is neither a cart line nor a user:
  the cart is empty, both navigations are issued, and the visitor ends at \<^verbatim>\<open>/login\<close>, not
  at the cart view.
\<close>

theorem guard_redirects_counterexample:
  "items nobody_nothing = [] \<and>
   guard nobody_nothing = [Navigate ''/cart'' None, Navigate ''/login'' (Some ''/checkout'')] \<and>
   location_after ''/checkout'' (guard nobody_nothing) = ''/login'' \<and>
   location_after ''/checkout'' (guard nobody_nothing) \<noteq> ''/cart'' \<and>
   location_after ''/checkout'' (snd (mount None [] [] [])) = ''/login''"
  by (simp add: guard_def mount_def enter_def initial_state_def nobody_nothing_def)

lemma guard_quiet: "items w \<noteq> [] \<Longrightarrow> user w \<noteq> None \<Longrightarrow> guard w = []"
  by (simp add: guard_def del: not_None_eq)

subsection \<open>The paths through handlePayment\<close>

lemmas handlePayment_defs =
  handlePayment_def create_intent_def load_stripe_def confirm_payment_def create_order_def
  create_order_items_def catch_effects_def store_order_def store_order_items_def clearCart_def
  Let_def

lemmas answer_splits = settled.splits response.splits option.splits

lemma intent_request_kind [simp]:
  "is_remote (intent_request tp)" "\<not> is_alert (intent_request tp)"
  "\<not> is_navigate (intent_request tp)" "\<not> is_confirm (intent_request tp)"
  "\<not> is_insert_order (intent_request tp)" "\<not> is_insert_items (intent_request tp)"
  "intent_request tp \<noteq> ClearCart" "ClearCart \<noteq> intent_request tp"
  by (simp_all add: intent_request_def)

lemma raised_Some:
  "raised a = Some e \<longleftrightarrow> a = Rejected e \<or> a = Fulfilled (Failure e)"
  by (cases a rule: raised.cases) auto

lemma raised_None: "raised a = None \<longleftrightarrow> (\<exists>x. a = Fulfilled (Success x))"
  by (cases a rule: raised.cases) auto

lemma intent_fails:
  assumes "raised (create_payment_intent env) = Some e"
  shows "handlePayment env tp w =
           (w\<lparr>isProcessing := False\<rparr>,
            [SetIsProcessing True, intent_request tp,
             ConsoleError ''Payment failed:'' e, Alert ''Payment failed. Please try again.'',
             SetIsProcessing False])"
  using assms by (auto simp: raised_Some handlePayment_defs)

lemma stripe_missing:
  assumes "create_payment_intent env = Fulfilled (Success paymentIntent)"
      and "stripePromise env = Fulfilled None"
  shows "handlePayment env tp w =
           (w\<lparr>isProcessing := False\<rparr>,
            [SetIsProcessing True, intent_request tp, AwaitStripe,
             ConsoleError ''Payment failed:'' (Error ''Stripe failed to load''),
             Alert ''Payment failed. Please try again.'', SetIsProcessing False])"
  using assms by (simp add: handlePayment_defs)

lemma confirmation_fails:
  assumes "create_payment_intent env = Fulfilled (Success (Some intent))"
      and "stripePromise env = Fulfilled (Some s)"
      and "raised (confirmCardPayment env) = Some e"
  shows "handlePayment env tp w =
           (w\<lparr>isProcessing := False\<rparr>,
            [SetIsProcessing True, intent_request tp, AwaitStripe,
             ConfirmCardPayment (clientSecret intent) test_card,
             ConsoleError ''Payment failed:'' e, Alert ''Payment failed. Please try again.'',
             SetIsProcessing False])"
  using assms by (auto simp: raised_Some handlePayment_defs)

lemma order_insert_fails:
  assumes "create_payment_intent env = Fulfilled (Success (Some intent))"
      and "stripePromise env = Fulfilled (Some s)"
      and "confirmCardPayment env = Fulfilled (Success ())"
      and "user w = Some u"
      and "raised (orders_insert env) = Some e"
  shows "handlePayment env tp w =
           (w\<lparr>isProcessing := False\<rparr>,
            [SetIsProcessing True, intent_request tp, AwaitStripe,
             ConfirmCardPayment (clientSecret intent) test_card,
             InsertOrder (order_fields u tp w),
             ConsoleError ''Payment failed:'' e, Alert ''Payment failed. Please try again.'',
             SetIsProcessing False])"
  using assms by (auto simp: raised_Some handlePayment_defs order_fields_def)

lemma items_insert_fails:
  assumes "create_payment_intent env = Fulfilled (Success (Some intent))"
      and "stripePromise env = Fulfilled (Some s)"
      and "confirmCardPayment env = Fulfilled (Success ())"
      and "user w = Some u"
      and "orders_insert env = Fulfilled (Success oid)"
      and "raised (order_items_insert env) = Some e"
  shows "handlePayment env tp w =
           (w\<lparr>orders := orders w @ [order_row (order_fields u tp w) oid],
              isProcessing := False\<rparr>,
            [SetIsProcessing True, intent_request tp, AwaitStripe,
             ConfirmCardPayment (clientSecret intent) test_card,
             InsertOrder (order_fields u tp w),
             InsertOrderItems (orderItems oid (items w)),
             ConsoleError ''Payment failed:'' e, Alert ''Payment failed. Please try again.'',
             SetIsProcessing False])"
  using assms by (auto simp: raised_Some handlePayment_defs order_fields_def)

lemma all_succeed:
  assumes "create_payment_intent env = Fulfilled (Success (Some intent))"
      and "stripePromise env = Fulfilled (Some s)"
      and "confirmCardPayment env = Fulfilled (Success ())"
      and "user w = Some u"
      and "orders_insert env = Fulfilled (Success oid)"
      and "order_items_insert env = Fulfilled (Success ())"
  shows "handlePayment env tp w =
           (w\<lparr>orders := orders w @ [order_row (order_fields u tp w) oid],
              order_items := order_items w @ orderItems oid (items w),
              items := [], isProcessing := False\<rparr>,
            [SetIsProcessing True, intent_request tp, AwaitStripe,
             ConfirmCardPayment (clientSecret intent) test_card,
             InsertOrder (order_fields u tp w),
             InsertOrderItems (orderItems oid (items w)),
             ClearCart, Navigate (''/order-confirmation/'' @ oid) None,
             SetIsProcessing False])"
  using assms by (simp add: handlePayment_defs order_fields_def)

lemma handlePayment_flag_and_step:
  "isProcessing (fst (handlePayment env tp w)) = False \<and>
   step (fst (handlePayment env tp w)) = step w \<and>
   shipping (fst (handlePayment env tp w)) = shipping w \<and>
   user (fst (handlePayment env tp w)) = user w"
  by (simp add: handlePayment_defs split: answer_splits)

text \<open>
  The two views of \<^verbatim>\<open>handlePayment\<close> agree: on a page whose render is up to date and has
  nothing in flight, a click on the enabled Pay button followed by the answers of an
  environment, taken step by step, leaves the world and has the effects of
  \<open>handlePayment\<close> run in one piece.
\<close>

lemma run_page_handlePayment:
  assumes "pending p = []" and "shown p = now p" and "handler_for ClickPay (view p) = OnPay"
  shows "run_page tp (UserDoes ClickPay # answers env) p =
           (\<lparr>now = fst (handlePayment env tp (now p)), shown = shown p, pending = []\<rparr>,
            snd (handlePayment env tp (now p)))"
  using assms
  by (cases p)
    (auto simp: answers_def page_step_def start_payment_def settle_def abort_def await_next_def
      handlePayment_defs order_fields_def split: answer_splits)

text \<open>\<^verbatim>\<open>handlePayment\<close> never reads \<open>isProcessing\<close>: called with the flag set it runs as
  it does with the flag clear.\<close>

lemma handlePayment_ignores_flag:
  "handlePayment env tp (w\<lparr>isProcessing := b\<rparr>) = handlePayment env tp w"
  by (simp add: handlePayment_defs order_fields_def split: answer_splits)

text \<open>The flag is raised before the first effect of a run and lowered after the last.\<close>

lemma flag_brackets_run:
  "\<exists>mid. snd (handlePayment env tp w) = SetIsProcessing True # mid @ [SetIsProcessing False] \<and>
         (\<forall>b. SetIsProcessing b \<notin> set mid)"
  by (auto simp: handlePayment_defs intent_request_def split: answer_splits)

lemma orderItems_length: "length (orderItems oid its) = length its"
  by (simp add: orderItems_def)

lemma orderItems_nth:
  assumes "i < length its"
  shows "orderItems oid its ! i =
           \<lparr>oi_order_id = oid, oi_product_id = product_id (product (its ! i)),
            oi_quantity = quantity (its ! i), oi_size = item_size (its ! i),
            oi_color = color (its ! i), oi_price = product_price (product (its ! i))\<rparr>"
  using assms by (simp add: orderItems_def)

text \<open>Whatever the answers, the first call to leave the browser is the request for a
  payment intent.\<close>

lemma handlePayment_first_request:
  "remote_calls (snd (handlePayment env tp w)) \<noteq> [] \<and>
   hd (remote_calls (snd (handlePayment env tp w))) = intent_request tp"
  by (simp add: handlePayment_defs split: answer_splits)

subsection \<open>A render after every event\<close>

lemma handler_for_payment_processing:
  "isProcessing w \<Longrightarrow> step w = Payment \<Longrightarrow> handler_for ev w = NoHandler"
  by (cases ev) (simp_all add: handler_for_def)

lemma handler_for_OnPay:
  "handler_for ev w = OnPay \<Longrightarrow> ev = ClickPay \<and> step w = Payment \<and> \<not> isProcessing w"
  by (cases ev; cases "step w") (auto simp: handler_for_def split: if_splits)

lemma handler_for_OnBack:
  "handler_for ev w = OnBack \<Longrightarrow> ev = ClickBack \<and> step w = Payment \<and> \<not> isProcessing w"
  by (cases ev; cases "step w") (auto simp: handler_for_def split: if_splits)

lemma handler_for_flag:
  "isProcessing w \<Longrightarrow> handler_for ClickPay w = NoHandler \<and> handler_for ClickBack w = NoHandler"
  by (cases "step w") (simp_all add: handler_for_def)

text \<open>A flight never touches the step; it lowers the flag when it ends and not before.\<close>

lemma resume_keeps:
  assumes "resume st a fl w = (r, w', effs)"
  shows "step w' = step w \<and>
         (case r of None \<Rightarrow> \<not> isProcessing w' | Some fl' \<Rightarrow> isProcessing w' = isProcessing w)"
  using assms
  by (cases "(st, a, fl, w)" rule: resume.cases)
    (auto simp: abort_def await_next_def store_order_def store_order_items_def
      clearCart_def Let_def split: settled.splits response.splits option.splits)

lemma settle_keeps_step: "step (now (fst (settle k a p))) = step (now p)"
proof (cases "k < length (pending p)")
  case False
  then show ?thesis by (simp add: settle_def)
next
  case True
  obtain r w' effs
    where res: "resume (stage (pending p ! k)) a (pending p ! k) (now p) = (r, w', effs)"
    by (metis prod_cases3)
  from resume_keeps [OF res] True show ?thesis
    by (cases r) (simp_all add: settle_def res)
qed

text \<open>The step goes from \<open>Payment\<close> back to \<open>Shipping\<close> by a click on Back alone, and then
  the render that was clicked did not show the flag.\<close>

lemma only_back_goes_back:
  assumes "step (now p) = Payment" and "step (now (fst (page_step tp act p))) = Shipping"
  shows "act = UserDoes ClickBack \<and> \<not> isProcessing (shown p)"
proof (cases act)
  case (UserDoes ev)
  show ?thesis
    using assms
    by (cases "handler_for ev (view p)")
      (auto simp: UserDoes page_step_def handleShippingSubmit_def start_payment_def
        handleShippingChange_keeps dest: handler_for_OnBack)
next
  case (Settles k a)
  with assms show ?thesis by (simp add: page_step_def settle_keeps_step)
next
  case Commit
  with assms show ?thesis by (simp add: page_step_def)
qed

lemma caught_up_settle:
  assumes "caught_up p"
  shows "caught_up (fst (settle k a p))"
proof (cases "k < length (pending p)")
  case False
  with assms show ?thesis by (simp add: settle_def)
next
  case True
  with assms have one: "length (pending p) = 1" "k = 0"
    and busy: "isProcessing (shown p)" "isProcessing (now p)"
    by (auto simp: caught_up_def split: if_splits)
  obtain r w' effs
    where res: "resume (stage (pending p ! 0)) a (pending p ! 0) (now p) = (r, w', effs)"
    by (metis prod_cases3)
  note keeps = resume_keeps [OF res]
  show ?thesis
    using assms one busy keeps
    by (cases r) (auto simp: settle_def res caught_up_def)
qed

lemma caught_up_commit:
  "caught_up p \<Longrightarrow> caught_up (fst (page_step tp Commit p))"
  by (auto simp: caught_up_def page_step_def split: if_splits)

lemma busy_page_ignores:
  "isProcessing (shown p) \<Longrightarrow> step (shown p) = Payment \<Longrightarrow> page_step tp (UserDoes ev) p = (p, [])"
  by (simp add: page_step_def handler_for_payment_processing)

lemma caught_up_event:
  assumes "caught_up p"
  shows "caught_up (fst (page_step tp Commit (fst (page_step tp (UserDoes ev) p))))"
proof (cases "isProcessing (shown p)")
  case True
  with assms have "step (shown p) = Payment" by (auto simp: caught_up_def)
  with True have "page_step tp (UserDoes ev) p = (p, [])" by (rule busy_page_ignores)
  with assms show ?thesis by (simp add: caught_up_commit)
next
  case False
  with assms have idle: "pending p = []" "\<not> isProcessing (now p)" "step (shown p) = step (now p)"
    by (auto simp: caught_up_def split: if_splits)
  show ?thesis
    using idle False
    by (cases "handler_for ev (view p)")
      (auto simp: page_step_def caught_up_def start_payment_def
        handleShippingSubmit_def handleShippingChange_keeps dest: handler_for_OnPay)
qed

lemma run_page_step:
  "run_page tp (act # acts) p =
     (fst (run_page tp acts (fst (page_step tp act p))),
      snd (page_step tp act p) @ snd (run_page tp acts (fst (page_step tp act p))))"
  by (simp split: prod.splits)

lemma caught_up_promptly:
  "caught_up p \<Longrightarrow> caught_up (fst (run_page tp (promptly acts) p))"
proof (induction acts arbitrary: p)
  case Nil
  then show ?case by simp
next
  case (Cons act acts)
  show ?case
  proof (cases act)
    case (UserDoes ev)
    have "caught_up (fst (page_step tp Commit (fst (page_step tp (UserDoes ev) p))))"
      using Cons.prems by (rule caught_up_event)
    from Cons.IH [OF this] show ?thesis
      by (simp add: UserDoes run_page_step del: run_page.simps)
  next
    case (Settles k a)
    have "caught_up (fst (page_step tp (Settles k a) p))"
      using caught_up_settle [OF Cons.prems, of k a] by (simp add: page_step_def)
    from Cons.IH [OF this] show ?thesis
      by (simp add: Settles run_page_step del: run_page.simps)
  next
    case Commit
    have "caught_up (fst (page_step tp Commit p))"
      using Cons.prems by (rule caught_up_commit)
    from Cons.IH [OF this] show ?thesis
      by (simp add: Commit run_page_step del: run_page.simps)
  qed
qed

lemma caught_up_enter: "caught_up (enter u its os ois)"
  by (simp add: caught_up_def enter_def initial_state_def)

lemma caught_up_busy:
  assumes "caught_up p" and "pending p \<noteq> [] \<or> isProcessing (now p) \<or> isProcessing (shown p)"
  shows "isProcessing (shown p) \<and> step (shown p) = Payment \<and> step (now p) = Payment \<and>
         length (pending p) \<le> 1 \<and> page_step tp (UserDoes ev) p = (p, [])"
proof -
  from assms have flag: "isProcessing (shown p)"
    by (auto simp: caught_up_def split: if_splits)
  with assms(1) have st: "step (shown p) = Payment" "step (now p) = Payment"
    by (auto simp: caught_up_def)
  from assms(1) have "length (pending p) \<le> 1"
    by (auto simp: caught_up_def split: if_splits)
  with flag st show ?thesis by (simp add: busy_page_ignores)
qed

text \<open>The sample run: the form typed and submitted, then the click on Pay, a render
  after each event.\<close>

lemma run_to_the_payment_step:
  "run_page (Finite 100) (promptly to_the_payment_step) entered =
     (ready, [PreventDefault, ScrollTo 0 0])"
  by (simp add: to_the_payment_step_def entered_def enter_def initial_state_def ready_def
      at_payment_def at_shipping_def page_step_def handler_for_def required_filled_def
      handleShippingSubmit_def view_def shirt_def scarf_def ada_def sample_shipping_def
      empty_shipping_def)

lemma click_on_ready:
  "page_step (Finite 100) (UserDoes ClickPay) ready =
     (clicked, [SetIsProcessing True, intent_request (Finite 100)])"
  by (simp add: ready_def clicked_def first_flight_def in_flight_def at_payment_def at_shipping_def
      page_step_def handler_for_def start_payment_def view_def shirt_def scarf_def ada_def)

lemma render_after_click:
  "page_step (Finite 100) Commit clicked = (paying, [])"
  by (simp add: clicked_def paying_def page_step_def)

lemma run_to_the_click:
  "run_page (Finite 100) (promptly to_the_click) entered =
     (paying, [PreventDefault, ScrollTo 0 0, SetIsProcessing True, intent_request (Finite 100)])"
  by (simp add: to_the_click_def to_the_payment_step_def entered_def enter_def initial_state_def
      paying_def first_flight_def in_flight_def at_payment_def
      at_shipping_def page_step_def handler_for_def required_filled_def handleShippingSubmit_def
      start_payment_def view_def shirt_def scarf_def ada_def sample_shipping_def empty_shipping_def)

subsection \<open>The buttons of the payment step\<close>

text \<open>
  C5. In a render that read \<open>isProcessing\<close> as true the Pay button is disabled: a click
  on it calls nothing, so the page is unchanged and no remote call is made.
  \<^verbatim>\<open>handlePayment\<close> itself does not test the flag: called with the flag set it runs as it
  does with the flag clear, and whatever the answers its request for a payment intent
  leaves the browser. When a render follows every event of the user, then however the
  page was used since it was entered, a flag that is set or a payment that is in flight
  means the flag is on the screen: a click on Pay is a no-op and no second payment is in
  flight.
\<close>

theorem pay_rejected_when_flag_shown:
  "(isProcessing (shown p) \<longrightarrow>
      handler_for ClickPay (view p) = NoHandler \<and>
      page_step tp (UserDoes ClickPay) p = (p, []) \<and>
      remote_calls (snd (page_step tp (UserDoes ClickPay) p)) = []) \<and>
   handlePayment env tp (w\<lparr>isProcessing := b\<rparr>) = handlePayment env tp w \<and>
   remote_calls (snd (handlePayment env tp w)) \<noteq> [] \<and>
   hd (remote_calls (snd (handlePayment env tp w))) = intent_request tp \<and>
   (fst (run_page tp (promptly acts) (enter u its os ois)) = q \<and>
      (isProcessing (now q) \<or> pending q \<noteq> []) \<longrightarrow>
      isProcessing (shown q) \<and> length (pending q) \<le> 1 \<and>
      page_step tp (UserDoes ClickPay) q = (q, []))"
proof -
  have "handler_for ClickPay (view p) = NoHandler \<and>
      page_step tp (UserDoes ClickPay) p = (p, []) \<and>
      remote_calls (snd (page_step tp (UserDoes ClickPay) p)) = []" if "isProcessing (shown p)"
  proof -
    from that have "handler_for ClickPay (view p) = NoHandler"
      by (simp add: handler_for_flag)
    then show ?thesis by (simp add: page_step_def)
  qed
  moreover have "isProcessing (shown q) \<and> length (pending q) \<le> 1 \<and>
      page_step tp (UserDoes ClickPay) q = (q, [])"
    if run: "fst (run_page tp (promptly acts) (enter u its os ois)) = q"
      and busy: "isProcessing (now q) \<or> pending q \<noteq> []"
  proof -
    have "caught_up q"
      using caught_up_promptly [OF caught_up_enter, of tp acts u its os ois] run by simp
    from caught_up_busy [OF this, of tp ClickPay] busy show ?thesis by blast
  qed
  ultimately show ?thesis
    by (simp add: handlePayment_ignores_flag handlePayment_first_request)
qed

theorem pay_rejected_when_flag_shown_witness:
  "isProcessing (shown paying) \<and>
   page_step (Finite 100) (UserDoes ClickPay) paying = (paying, []) \<and>
   remote_calls (snd (page_step (Finite 100) (UserDoes ClickPay) paying)) = [] \<and>
   fst (run_page (Finite 100) (promptly to_the_click) (enter (Some ada) [shirt, scarf] [] [])) =
     paying \<and>
   pending paying \<noteq> [] \<and> length (pending paying) \<le> 1 \<and>
   handlePayment all_well (Finite 100) (at_payment\<lparr>isProcessing := True\<rparr>) =
     handlePayment all_well (Finite 100) at_payment \<and>
   hd (remote_calls (snd (handlePayment all_well (Finite 100) at_payment))) =
     intent_request (Finite 100)"
proof -
  have a: "isProcessing (shown paying)"
    by (simp add: paying_def in_flight_def)
  have b: "fst (run_page (Finite 100) (promptly to_the_click) (enter (Some ada) [shirt, scarf] [] [])) =
      paying"
    using run_to_the_click by (simp add: entered_def)
  have c: "pending paying \<noteq> []"
    by (simp add: paying_def)
  show ?thesis
    using pay_rejected_when_flag_shown
      [where p = paying and tp = "Finite 100" and env = all_well and w = at_payment and b = True
        and acts = to_the_click and u = "Some ada" and its = "[shirt, scarf]" and os = "[]"
        and ois = "[]" and q = paying]
      a b c
    by simp
qed

text \<open>
  C5, as the specification has it, fails. With the flag set and every service answering
  well, \<^verbatim>\<open>handlePayment\<close> makes its four remote calls and stores an order. And the page
  lets it be called so: a click on Pay queues the flag, and a second click that comes
  before the render that follows still finds the button enabled and sends a second
  request for a payment intent, a second payment in flight.
\<close>

theorem pay_rejected_counterexample:
  "isProcessing in_flight \<and>
   remote_calls (snd (handlePayment all_well (Finite 100) in_flight)) =
     [intent_request (Finite 100), ConfirmCardPayment (Some ''cs_1'') test_card,
      InsertOrder (order_fields ada (Finite 100) in_flight),
      InsertOrderItems (orderItems ''o42'' [shirt, scarf])] \<and>
   orders (fst (handlePayment all_well (Finite 100) in_flight)) \<noteq> orders in_flight \<and>
   fst (run_page (Finite 100) (promptly to_the_payment_step) entered) = ready \<and>
   page_step (Finite 100) (UserDoes ClickPay) ready =
     (clicked, [SetIsProcessing True, intent_request (Finite 100)]) \<and>
   isProcessing (now clicked) \<and>
   page_step (Finite 100) (UserDoes ClickPay) clicked =
     (clicked\<lparr>pending := [first_flight, first_flight]\<rparr>,
      [SetIsProcessing True, intent_request (Finite 100)])"
proof -
  have "remote_calls (snd (handlePayment all_well (Finite 100) in_flight)) =
     [intent_request (Finite 100), ConfirmCardPayment (Some ''cs_1'') test_card,
      InsertOrder (order_fields ada (Finite 100) in_flight),
      InsertOrderItems (orderItems ''o42'' [shirt, scarf])]"
    by (simp add: handlePayment_defs all_well_def in_flight_def at_payment_def at_shipping_def)
  moreover have "orders (fst (handlePayment all_well (Finite 100) in_flight)) \<noteq> orders in_flight"
    by (simp add: handlePayment_defs all_well_def in_flight_def at_payment_def at_shipping_def)
  moreover have "page_step (Finite 100) (UserDoes ClickPay) clicked =
     (clicked\<lparr>pending := [first_flight, first_flight]\<rparr>,
      [SetIsProcessing True, intent_request (Finite 100)])"
    by (simp add: clicked_def first_flight_def in_flight_def at_payment_def at_shipping_def
      page_step_def handler_for_def start_payment_def view_def shirt_def scarf_def ada_def)
  moreover have "isProcessing in_flight" "isProcessing (now clicked)"
    by (simp_all add: clicked_def in_flight_def)
  ultimately show ?thesis
    by (simp add: run_to_the_payment_step click_on_ready)
qed

text \<open>
  C8. In a render that read \<open>isProcessing\<close> as true the Back button is disabled: a click
  on it changes nothing. The step goes from \<open>Payment\<close> back to \<open>Shipping\<close> by a click on
  Back alone, on a render that did not show the flag. When a render follows every event
  of the user, then however the page was used since it was entered, a flag that is set
  or shown or a payment that is in flight means the flag is on the screen and the step
  is \<open>Payment\<close>, and a click on Back, like every other event of the user, changes
  nothing: the step stays \<open>Payment\<close> until the flight ends.
\<close>

theorem back_unavailable_when_flag_shown:
  "(isProcessing w \<longrightarrow> handler_for ClickBack w = NoHandler) \<and>
   (isProcessing (shown p) \<longrightarrow> page_step tp (UserDoes ClickBack) p = (p, [])) \<and>
   (step (now p) = Payment \<and> step (now (fst (page_step tp act p))) = Shipping \<longrightarrow>
      act = UserDoes ClickBack \<and> \<not> isProcessing (shown p)) \<and>
   (fst (run_page tp (promptly acts) (enter u its os ois)) = q \<and>
      (isProcessing (now q) \<or> isProcessing (shown q) \<or> pending q \<noteq> []) \<longrightarrow>
      isProcessing (shown q) \<and> step (shown q) = Payment \<and> step (now q) = Payment \<and>
      page_step tp (UserDoes ClickBack) q = (q, []) \<and>
      page_step tp (UserDoes ev) q = (q, []))"
proof -
  have "page_step tp (UserDoes ClickBack) p = (p, [])" if "isProcessing (shown p)"
  proof -
    from that have "handler_for ClickBack (view p) = NoHandler"
      by (simp add: handler_for_flag)
    then show ?thesis by (simp add: page_step_def)
  qed
  moreover have "isProcessing (shown q) \<and> step (shown q) = Payment \<and> step (now q) = Payment \<and>
      page_step tp (UserDoes ClickBack) q = (q, []) \<and>
      page_step tp (UserDoes ev) q = (q, [])"
    if run: "fst (run_page tp (promptly acts) (enter u its os ois)) = q"
      and busy: "isProcessing (now q) \<or> isProcessing (shown q) \<or> pending q \<noteq> []"
  proof -
    have "caught_up q"
      using caught_up_promptly [OF caught_up_enter, of tp acts u its os ois] run by simp
    from caught_up_busy [OF this, of tp] busy show ?thesis by blast
  qed
  ultimately show ?thesis
    using only_back_goes_back [of p tp act] handler_for_flag [of w] by blast
qed

theorem back_unavailable_when_flag_shown_witness:
  "isProcessing in_flight \<and> handler_for ClickBack in_flight = NoHandler \<and>
   isProcessing (shown paying) \<and>
   fst (run_page (Finite 100) (promptly to_the_click) (enter (Some ada) [shirt, scarf] [] [])) =
     paying \<and>
   pending paying \<noteq> [] \<and> step (shown paying) = Payment \<and> step (now paying) = Payment \<and>
   page_step (Finite 100) (UserDoes ClickBack) paying = (paying, []) \<and>
   step (now ready) = Payment \<and>
   step (now (fst (page_step (Finite 100) (UserDoes ClickBack) ready))) = Shipping \<and>
   \<not> isProcessing (shown ready)"
proof -
  have a: "isProcessing in_flight" "isProcessing (shown paying)"
    by (simp_all add: in_flight_def paying_def)
  have b: "fst (run_page (Finite 100) (promptly to_the_click) (enter (Some ada) [shirt, scarf] [] [])) =
      paying"
    using run_to_the_click by (simp add: entered_def)
  have c: "pending paying \<noteq> []"
    by (simp add: paying_def)
  have d: "step (now ready) = Payment"
    "step (now (fst (page_step (Finite 100) (UserDoes ClickBack) ready))) = Shipping"
    by (simp_all add: ready_def at_payment_def at_shipping_def page_step_def handler_for_def
        view_def)
  show ?thesis
    using back_unavailable_when_flag_shown
      [of in_flight paying "Finite 100" "UserDoes ClickBack" to_the_click "Some ada"
        "[shirt, scarf]" "[]" "[]" paying ClickBack]
      back_unavailable_when_flag_shown
      [of in_flight ready "Finite 100" "UserDoes ClickBack" to_the_click "Some ada"
        "[shirt, scarf]" "[]" "[]" paying ClickBack]
      a b c d
    by blast
qed

text \<open>
  C8, as the specification has it, fails. A click on Pay queues the flag and sends the
  first request; a click on Back that comes before the render that follows still finds
  the button enabled and sets the step to \<open>Shipping\<close>. The next render shows the shipping
  form with \<open>isProcessing\<close> true and the payment in flight.
\<close>

theorem back_unavailable_counterexample:
  "fst (run_page (Finite 100) (promptly to_the_payment_step) entered) = ready \<and>
   run_page (Finite 100) [UserDoes ClickPay, UserDoes ClickBack, Commit] ready =
     (gone_back, [SetIsProcessing True, intent_request (Finite 100)]) \<and>
   pending gone_back = [first_flight] \<and>
   isProcessing (now gone_back) \<and> isProcessing (shown gone_back) \<and>
   step (now gone_back) = Shipping \<and> step (shown gone_back) = Shipping"
proof -
  have "run_page (Finite 100) [UserDoes ClickPay, UserDoes ClickBack, Commit] ready =
     (gone_back, [SetIsProcessing True, intent_request (Finite 100)])"
    by (simp add: ready_def gone_back_def first_flight_def in_flight_def at_payment_def
        at_shipping_def page_step_def handler_for_def start_payment_def view_def shirt_def
        scarf_def ada_def)
  moreover have "pending gone_back = [first_flight]" "isProcessing (now gone_back)"
    "isProcessing (shown gone_back)" "step (now gone_back) = Shipping"
    "step (shown gone_back) = Shipping"
    by (simp_all add: gone_back_def in_flight_def)
  ultimately show ?thesis
    by (simp add: run_to_the_payment_step)
qed

subsection \<open>A payment that goes through\<close>

text \<open>
  C1. When every step of \<^verbatim>\<open>handlePayment\<close> succeeds, with a user \<open>u\<close> and a cart of any
  number \<open>N\<close> of lines: exactly one row is added to \<open>orders\<close>, holding the id of \<open>u\<close>,
  the status \<^verbatim>\<open>processing\<close>, the shipping form as it stands and the payment method
  \<^verbatim>\<open>stripe\<close>, under the id \<open>oid\<close> the repository answered with; then exactly \<open>N\<close>
  rows are added to \<open>order_items\<close>, the \<open>i\<close>-th one referring to \<open>oid\<close> and carrying the
  price of the product of the \<open>i\<close>-th cart line as it is at that moment; then the cart is
  cleared and the page navigates to \<^verbatim>\<open>/order-confirmation/\<close> followed by \<open>oid\<close>. The
  effects occur in exactly this order.
\<close>

theorem payment_success:
  assumes "create_payment_intent env = Fulfilled (Success (Some intent))"
      and "stripePromise env = Fulfilled (Some s)"
      and "confirmCardPayment env = Fulfilled (Success ())"
      and "user w = Some u"
      and "orders_insert env = Fulfilled (Success oid)"
      and "order_items_insert env = Fulfilled (Success ())"
  shows "handlePayment env tp w =
           (w\<lparr>orders := orders w @ [order_row (order_fields u tp w) oid],
              order_items := order_items w @ orderItems oid (items w),
              items := [], isProcessing := False\<rparr>,
            [SetIsProcessing True, intent_request tp, AwaitStripe,
             ConfirmCardPayment (clientSecret intent) test_card,
             InsertOrder (order_fields u tp w),
             InsertOrderItems (orderItems oid (items w)),
             ClearCart, Navigate (''/order-confirmation/'' @ oid) None,
             SetIsProcessing False]) \<and>
         o_user_id (order_row (order_fields u tp w) oid) = user_id u \<and>
         o_status (order_row (order_fields u tp w) oid) = ''processing'' \<and>
         o_shipping_address (order_row (order_fields u tp w) oid) = shipping w \<and>
         o_payment_method (order_row (order_fields u tp w) oid) = ''stripe'' \<and>
         row_id (order_row (order_fields u tp w) oid) = oid \<and>
         length (orderItems oid (items w)) = length (items w) \<and>
         (\<forall>i < length (items w).
            oi_order_id (orderItems oid (items w) ! i) = oid \<and>
            oi_price (orderItems oid (items w) ! i) = product_price (product (items w ! i)))"
proof -
  have "handlePayment env tp w =
           (w\<lparr>orders := orders w @ [order_row (order_fields u tp w) oid],
              order_items := order_items w @ orderItems oid (items w),
              items := [], isProcessing := False\<rparr>,
            [SetIsProcessing True, intent_request tp, AwaitStripe,
             ConfirmCardPayment (clientSecret intent) test_card,
             InsertOrder (order_fields u tp w),
             InsertOrderItems (orderItems oid (items w)),
             ClearCart, Navigate (''/order-confirmation/'' @ oid) None,
             SetIsProcessing False])"
    using assms by (rule all_succeed)
  moreover have "o_user_id (order_row (order_fields u tp w) oid) = user_id u"
    and "o_status (order_row (order_fields u tp w) oid) = ''processing''"
    and "o_shipping_address (order_row (order_fields u tp w) oid) = shipping w"
    and "o_payment_method (order_row (order_fields u tp w) oid) = ''stripe''"
    and "row_id (order_row (order_fields u tp w) oid) = oid"
    by (simp_all add: order_row_def order_fields_def)
  moreover have "\<forall>i < length (items w).
      oi_order_id (orderItems oid (items w) ! i) = oid \<and>
      oi_price (orderItems oid (items w) ! i) = product_price (product (items w ! i))"
    by (simp add: orderItems_nth)
  ultimately show ?thesis
    by (simp only: orderItems_length simp_thms)
qed

theorem payment_success_witness:
  "handlePayment all_well (Finite 100) at_payment =
     (at_payment
        \<lparr>orders := [order_row (order_fields ada (Finite 100) at_payment) ''o42''],
         order_items := orderItems ''o42'' [shirt, scarf], items := []\<rparr>,
      [SetIsProcessing True, intent_request (Finite 100), AwaitStripe,
       ConfirmCardPayment (Some ''cs_1'') test_card,
       InsertOrder (order_fields ada (Finite 100) at_payment),
       InsertOrderItems (orderItems ''o42'' [shirt, scarf]),
       ClearCart, Navigate ''/order-confirmation/o42'' None, SetIsProcessing False]) \<and>
   o_user_id (order_row (order_fields ada (Finite 100) at_payment) ''o42'') = ''u7'' \<and>
   o_status (order_row (order_fields ada (Finite 100) at_payment) ''o42'') = ''processing'' \<and>
   o_shipping_address (order_row (order_fields ada (Finite 100) at_payment) ''o42'') =
     sample_shipping \<and>
   o_payment_method (order_row (order_fields ada (Finite 100) at_payment) ''o42'') = ''stripe'' \<and>
   length (orderItems ''o42'' [shirt, scarf]) = 2 \<and>
   map oi_order_id (orderItems ''o42'' [shirt, scarf]) = [''o42'', ''o42''] \<and>
   map oi_price (orderItems ''o42'' [shirt, scarf]) = [Finite 20, Finite 60]"
proof -
  have env: "create_payment_intent all_well =
               Fulfilled (Success (Some \<lparr>clientSecret = Some ''cs_1''\<rparr>))"
    "stripePromise all_well = Fulfilled (Some Stripe)"
    "confirmCardPayment all_well = Fulfilled (Success ())"
    by (simp_all add: all_well_def)
  have usr: "user at_payment = Some ada"
    by (simp add: at_payment_def at_shipping_def)
  have ins: "orders_insert all_well = Fulfilled (Success ''o42'')"
    "order_items_insert all_well = Fulfilled (Success ())"
    by (simp_all add: all_well_def)
  have cart: "items at_payment = [shirt, scarf]" "orders at_payment = []"
    "order_items at_payment = []" "isProcessing at_payment = False"
    "shipping at_payment = sample_shipping"
    by (simp_all add: at_payment_def at_shipping_def)
  have prices: "map oi_price (orderItems ''o42'' [shirt, scarf]) = [Finite 20, Finite 60]"
    "map oi_order_id (orderItems ''o42'' [shirt, scarf]) = [''o42'', ''o42'']"
    by (simp_all add: orderItems_def shirt_def scarf_def)
  have user_id: "user_id ada = ''u7''"
    by (simp add: ada_def)
  from payment_success [OF env usr ins, of "Finite 100"]
  show ?thesis
    by (simp add: cart prices user_id at_payment_def at_shipping_def)
qed

subsection \<open>A payment that fails\<close>

lemma handlePayment_thrown:
  assumes "create_intent env tp (w\<lparr>isProcessing := True\<rparr>) = (Some e, w', effs)"
  shows "filter is_alert (snd (handlePayment env tp w)) = [Alert ''Payment failed. Please try again.'']"
    and "ClearCart \<notin> set (snd (handlePayment env tp w))"
    and "\<not> list_ex is_navigate (snd (handlePayment env tp w))"
    and "items (fst (handlePayment env tp w)) = items w"
  using assms
  by (auto simp: handlePayment_defs split: answer_splits)

text \<open>
  C2. A failure at any of the four steps (the answer carries an error, or the promise is
  rejected) ends \<^verbatim>\<open>handlePayment\<close> as follows. The requests of the later steps are not
  made, the cart is not cleared and nothing is navigated to; the value is logged and one
  alert with the fixed text is shown; \<open>isProcessing\<close> is false again; the step and the
  rest of the page's state are as before. In each case the world and the full list of
  effects are given. When the intent cannot be created, \<open>orders\<close> and \<open>order_items\<close> are
  untouched. (When the insert of the items fails, the order row stored just before
  stays: nothing is rolled back.)
\<close>

theorem payment_failure_aborts:
  "(raised (create_payment_intent env) = Some e \<longrightarrow>
      handlePayment env tp w =
        (w\<lparr>isProcessing := False\<rparr>,
         [SetIsProcessing True, intent_request tp,
          ConsoleError ''Payment failed:'' e, Alert ''Payment failed. Please try again.'',
          SetIsProcessing False]) \<and>
      orders (fst (handlePayment env tp w)) = orders w \<and>
      order_items (fst (handlePayment env tp w)) = order_items w) \<and>
   (create_payment_intent env = Fulfilled (Success (Some intent)) \<and>
    stripePromise env = Fulfilled (Some s) \<and>
    raised (confirmCardPayment env) = Some e \<longrightarrow>
      handlePayment env tp w =
        (w\<lparr>isProcessing := False\<rparr>,
         [SetIsProcessing True, intent_request tp, AwaitStripe,
          ConfirmCardPayment (clientSecret intent) test_card,
          ConsoleError ''Payment failed:'' e, Alert ''Payment failed. Please try again.'',
          SetIsProcessing False])) \<and>
   (create_payment_intent env = Fulfilled (Success (Some intent)) \<and>
    stripePromise env = Fulfilled (Some s) \<and>
    confirmCardPayment env = Fulfilled (Success ()) \<and> user w = Some u \<and>
    raised (orders_insert env) = Some e \<longrightarrow>
      handlePayment env tp w =
        (w\<lparr>isProcessing := False\<rparr>,
         [SetIsProcessing True, intent_request tp, AwaitStripe,
          ConfirmCardPayment (clientSecret intent) test_card,
          InsertOrder (order_fields u tp w),
          ConsoleError ''Payment failed:'' e, Alert ''Payment failed. Please try again.'',
          SetIsProcessing False])) \<and>
   (create_payment_intent env = Fulfilled (Success (Some intent)) \<and>
    stripePromise env = Fulfilled (Some s) \<and>
    confirmCardPayment env = Fulfilled (Success ()) \<and> user w = Some u \<and>
    orders_insert env = Fulfilled (Success oid) \<and>
    raised (order_items_insert env) = Some e \<longrightarrow>
      handlePayment env tp w =
        (w\<lparr>orders := orders w @ [order_row (order_fields u tp w) oid],
           isProcessing := False\<rparr>,
         [SetIsProcessing True, intent_request tp, AwaitStripe,
          ConfirmCardPayment (clientSecret intent) test_card,
          InsertOrder (order_fields u tp w),
          InsertOrderItems (orderItems oid (items w)),
          ConsoleError ''Payment failed:'' e, Alert ''Payment failed. Please try again.'',
          SetIsProcessing False])) \<and>
   isProcessing (fst (handlePayment env tp w)) = False \<and>
   step (fst (handlePayment env tp w)) = step w"
proof -
  have "raised (create_payment_intent env) = Some e \<Longrightarrow>
      orders (fst (handlePayment env tp w)) = orders w \<and>
      order_items (fst (handlePayment env tp w)) = order_items w"
    by (simp add: intent_fails)
  then show ?thesis
    using intent_fails [of env e tp w] confirmation_fails [of env intent s e tp w]
      order_insert_fails [of env intent s w u e tp]
      items_insert_fails [of env intent s w u oid e tp]
      handlePayment_flag_and_step [of env tp w]
    by blast
qed

theorem payment_failure_aborts_witness:
  "raised (create_payment_intent intent_refused) = Some (ServiceError ''no intent'') \<and>
   handlePayment intent_refused (Finite 100) at_payment =
     (at_payment,
      [SetIsProcessing True, intent_request (Finite 100),
       ConsoleError ''Payment failed:'' (ServiceError ''no intent''),
       Alert ''Payment failed. Please try again.'', SetIsProcessing False]) \<and>
   orders (fst (handlePayment intent_refused (Finite 100) at_payment)) = [] \<and>
   order_items (fst (handlePayment intent_refused (Finite 100) at_payment)) = [] \<and>
   raised (confirmCardPayment card_declined) = Some (ServiceError ''card declined'') \<and>
   handlePayment card_declined (Finite 100) at_payment =
     (at_payment,
      [SetIsProcessing True, intent_request (Finite 100), AwaitStripe,
       ConfirmCardPayment (Some ''cs_1'') test_card,
       ConsoleError ''Payment failed:'' (ServiceError ''card declined''),
       Alert ''Payment failed. Please try again.'', SetIsProcessing False]) \<and>
   raised (orders_insert orders_down) = Some (ServiceError ''orders down'') \<and>
   handlePayment orders_down (Finite 100) at_payment =
     (at_payment,
      [SetIsProcessing True, intent_request (Finite 100), AwaitStripe,
       ConfirmCardPayment (Some ''cs_1'') test_card,
       InsertOrder (order_fields ada (Finite 100) at_payment),
       ConsoleError ''Payment failed:'' (ServiceError ''orders down''),
       Alert ''Payment failed. Please try again.'', SetIsProcessing False]) \<and>
   raised (order_items_insert items_down) = Some (ServiceError ''network'') \<and>
   handlePayment items_down (Finite 100) at_payment =
     (at_payment\<lparr>orders := [order_row (order_fields ada (Finite 100) at_payment) ''o42'']\<rparr>,
      [SetIsProcessing True, intent_request (Finite 100), AwaitStripe,
       ConfirmCardPayment (Some ''cs_1'') test_card,
       InsertOrder (order_fields ada (Finite 100) at_payment),
       InsertOrderItems (orderItems ''o42'' [shirt, scarf]),
       ConsoleError ''Payment failed:'' (ServiceError ''network''),
       Alert ''Payment failed. Please try again.'', SetIsProcessing False]) \<and>
   isProcessing (fst (handlePayment items_down (Finite 100) at_payment)) = False \<and>
   step (fst (handlePayment items_down (Finite 100) at_payment)) = Payment"
proof -
  have w: "user at_payment = Some ada" "items at_payment = [shirt, scarf]"
    "orders at_payment = []" "order_items at_payment = []" "step at_payment = Payment"
    "at_payment\<lparr>isProcessing := False\<rparr> = at_payment"
    by (simp_all add: at_payment_def at_shipping_def)
  have e1: "raised (create_payment_intent intent_refused) = Some (ServiceError ''no intent'')"
    by (simp add: intent_refused_def all_well_def)
  have e2: "create_payment_intent card_declined =
              Fulfilled (Success (Some \<lparr>clientSecret = Some ''cs_1''\<rparr>))"
    "stripePromise card_declined = Fulfilled (Some Stripe)"
    "raised (confirmCardPayment card_declined) = Some (ServiceError ''card declined'')"
    by (simp_all add: card_declined_def all_well_def)
  have e3: "create_payment_intent orders_down =
              Fulfilled (Success (Some \<lparr>clientSecret = Some ''cs_1''\<rparr>))"
    "stripePromise orders_down = Fulfilled (Some Stripe)"
    "confirmCardPayment orders_down = Fulfilled (Success ())"
    "raised (orders_insert orders_down) = Some (ServiceError ''orders down'')"
    by (simp_all add: orders_down_def all_well_def)
  have e4: "create_payment_intent items_down =
              Fulfilled (Success (Some \<lparr>clientSecret = Some ''cs_1''\<rparr>))"
    "stripePromise items_down = Fulfilled (Some Stripe)"
    "confirmCardPayment items_down = Fulfilled (Success ())"
    "orders_insert items_down = Fulfilled (Success ''o42'')"
    "raised (order_items_insert items_down) = Some (ServiceError ''network'')"
    by (simp_all add: items_down_def all_well_def)
  note t1 = payment_failure_aborts [of intent_refused "ServiceError ''no intent''"
      "Finite 100" at_payment]
  note t2 = payment_failure_aborts [of card_declined "ServiceError ''card declined''"
      "Finite 100" at_payment "\<lparr>clientSecret = Some ''cs_1''\<rparr>" Stripe]
  note t3 = payment_failure_aborts [of orders_down "ServiceError ''orders down''"
      "Finite 100" at_payment "\<lparr>clientSecret = Some ''cs_1''\<rparr>" Stripe ada]
  note t4 = payment_failure_aborts [of items_down "ServiceError ''network''"
      "Finite 100" at_payment "\<lparr>clientSecret = Some ''cs_1''\<rparr>" Stripe ada "''o42''"]
  have r1: "handlePayment intent_refused (Finite 100) at_payment =
     (at_payment,
      [SetIsProcessing True, intent_request (Finite 100),
       ConsoleError ''Payment failed:'' (ServiceError ''no intent''),
       Alert ''Payment failed. Please try again.'', SetIsProcessing False])"
    using t1 e1 w by simp
  have r2: "handlePayment card_declined (Finite 100) at_payment =
     (at_payment,
      [SetIsProcessing True, intent_request (Finite 100), AwaitStripe,
       ConfirmCardPayment (Some ''cs_1'') test_card,
       ConsoleError ''Payment failed:'' (ServiceError ''card declined''),
       Alert ''Payment failed. Please try again.'', SetIsProcessing False])"
    using t2 e2 w by simp
  have r3: "handlePayment orders_down (Finite 100) at_payment =
     (at_payment,
      [SetIsProcessing True, intent_request (Finite 100), AwaitStripe,
       ConfirmCardPayment (Some ''cs_1'') test_card,
       InsertOrder (order_fields ada (Finite 100) at_payment),
       ConsoleError ''Payment failed:'' (ServiceError ''orders down''),
       Alert ''Payment failed. Please try again.'', SetIsProcessing False])"
    using t3 e3 w by simp
  have r4: "handlePayment items_down (Finite 100) at_payment =
     (at_payment\<lparr>orders := [order_row (order_fields ada (Finite 100) at_payment) ''o42'']\<rparr>,
      [SetIsProcessing True, intent_request (Finite 100), AwaitStripe,
       ConfirmCardPayment (Some ''cs_1'') test_card,
       InsertOrder (order_fields ada (Finite 100) at_payment),
       InsertOrderItems (orderItems ''o42'' [shirt, scarf]),
       ConsoleError ''Payment failed:'' (ServiceError ''network''),
       Alert ''Payment failed. Please try again.'', SetIsProcessing False])"
    using t4 e4 w by (simp add: at_payment_def at_shipping_def)
  show ?thesis
    unfolding r1 r2 r3 r4 using e1 e2(3) e3(4) e4(5) w
    by (simp add: at_payment_def at_shipping_def)
qed

text \<open>
  C10. When the intent was created and the Stripe client resolves to \<^verbatim>\<open>null\<close>, the page
  throws its own error \<^verbatim>\<open>Stripe failed to load\<close> and takes the path of every failure: the
  confirmation is never requested, \<open>orders\<close>, \<open>order_items\<close> and the cart are as
  before, the alert is shown, and \<open>isProcessing\<close> is false again.
\<close>

theorem stripe_load_failure:
  assumes "create_payment_intent env = Fulfilled (Success paymentIntent)"
      and "stripePromise env = Fulfilled None"
  shows "handlePayment env tp w =
           (w\<lparr>isProcessing := False\<rparr>,
            [SetIsProcessing True, intent_request tp, AwaitStripe,
             ConsoleError ''Payment failed:'' (Error ''Stripe failed to load''),
             Alert ''Payment failed. Please try again.'', SetIsProcessing False]) \<and>
         \<not> list_ex is_confirm (snd (handlePayment env tp w)) \<and>
         orders (fst (handlePayment env tp w)) = orders w \<and>
         order_items (fst (handlePayment env tp w)) = order_items w \<and>
         items (fst (handlePayment env tp w)) = items w \<and>
         isProcessing (fst (handlePayment env tp w)) = False"
proof -
  have "handlePayment env tp w =
           (w\<lparr>isProcessing := False\<rparr>,
            [SetIsProcessing True, intent_request tp, AwaitStripe,
             ConsoleError ''Payment failed:'' (Error ''Stripe failed to load''),
             Alert ''Payment failed. Please try again.'', SetIsProcessing False])"
    using assms by (rule stripe_missing)
  then show ?thesis by simp
qed

theorem stripe_load_failure_witness:
  "handlePayment stripe_absent (Finite 100) at_payment =
     (at_payment,
      [SetIsProcessing True, intent_request (Finite 100), AwaitStripe,
       ConsoleError ''Payment failed:'' (Error ''Stripe failed to load''),
       Alert ''Payment failed. Please try again.'', SetIsProcessing False]) \<and>
   \<not> list_ex is_confirm (snd (handlePayment stripe_absent (Finite 100) at_payment)) \<and>
   orders (fst (handlePayment stripe_absent (Finite 100) at_payment)) = [] \<and>
   order_items (fst (handlePayment stripe_absent (Finite 100) at_payment)) = [] \<and>
   items (fst (handlePayment stripe_absent (Finite 100) at_payment)) = [shirt, scarf] \<and>
   isProcessing (fst (handlePayment stripe_absent (Finite 100) at_payment)) = False"
proof -
  have e: "create_payment_intent stripe_absent =
             Fulfilled (Success (Some \<lparr>clientSecret = Some ''cs_1''\<rparr>))"
    "stripePromise stripe_absent = Fulfilled None"
    by (simp_all add: stripe_absent_def all_well_def)
  have w: "at_payment\<lparr>isProcessing := False\<rparr> = at_payment" "orders at_payment = []"
    "order_items at_payment = []" "items at_payment = [shirt, scarf]"
    by (simp_all add: at_payment_def at_shipping_def)
  show ?thesis
    using stripe_load_failure [OF e, of "Finite 100" at_payment] w
    by (simp add: at_payment_def at_shipping_def)
qed

subsection \<open>Order and items together\<close>

lemma items_request_needs_order:
  "list_ex is_insert_items (snd (handlePayment env tp w)) \<Longrightarrow> raised (orders_insert env) = None"
  by (auto simp: handlePayment_defs split: answer_splits)

lemma cleared_needs_both:
  assumes "ClearCart \<in> set (snd (handlePayment env tp w))"
  shows "raised (orders_insert env) = None \<and> raised (order_items_insert env) = None \<and>
         length (orders (fst (handlePayment env tp w))) = Suc (length (orders w)) \<and>
         length (order_items (fst (handlePayment env tp w))) =
           length (order_items w) + length (items w)"
  using assms
  by (auto simp: handlePayment_defs orderItems_length split: answer_splits)

lemma no_order_no_items:
  assumes "raised (orders_insert env) \<noteq> None"
  shows "order_items (fst (handlePayment env tp w)) = order_items w \<and>
         orders (fst (handlePayment env tp w)) = orders w \<and>
         \<not> list_ex is_insert_items (snd (handlePayment env tp w))"
  using assms
  by (auto simp: handlePayment_defs split: answer_splits)

lemma cart_kept_unless_cleared:
  "ClearCart \<notin> set (snd (handlePayment env tp w)) \<Longrightarrow>
   items (fst (handlePayment env tp w)) = items w"
  by (auto simp: handlePayment_defs split: answer_splits)

text \<open>
  C4. In every run of \<^verbatim>\<open>handlePayment\<close>: the insert of the items is requested only if
  the insert of the order answered with success; the cart is cleared only if both
  inserts answered with success, and then one order row and one item row for each cart
  line have been stored; the cart is otherwise left as it was. When the insert of the
  order fails (also after a confirmed payment), no item is stored, no order is stored and
  the insert of the items is not requested.
\<close>

theorem order_and_items_together:
  "(list_ex is_insert_items (snd (handlePayment env tp w)) \<longrightarrow>
      raised (orders_insert env) = None) \<and>
   (ClearCart \<in> set (snd (handlePayment env tp w)) \<longrightarrow>
      raised (orders_insert env) = None \<and> raised (order_items_insert env) = None \<and>
      length (orders (fst (handlePayment env tp w))) = Suc (length (orders w)) \<and>
      length (order_items (fst (handlePayment env tp w))) =
        length (order_items w) + length (items w)) \<and>
   (ClearCart \<notin> set (snd (handlePayment env tp w)) \<longrightarrow>
      items (fst (handlePayment env tp w)) = items w) \<and>
   (raised (orders_insert env) \<noteq> None \<longrightarrow>
      order_items (fst (handlePayment env tp w)) = order_items w \<and>
      orders (fst (handlePayment env tp w)) = orders w \<and>
      \<not> list_ex is_insert_items (snd (handlePayment env tp w)))"
  using items_request_needs_order [of env tp w] cleared_needs_both [of env tp w]
    cart_kept_unless_cleared [of env tp w] no_order_no_items [of env tp w]
  by blast

theorem order_and_items_together_witness:
  "list_ex is_insert_items (snd (handlePayment all_well (Finite 100) at_payment)) \<and>
   ClearCart \<in> set (snd (handlePayment all_well (Finite 100) at_payment)) \<and>
   raised (orders_insert all_well) = None \<and> raised (order_items_insert all_well) = None \<and>
   length (orders (fst (handlePayment all_well (Finite 100) at_payment))) = 1 \<and>
   length (order_items (fst (handlePayment all_well (Finite 100) at_payment))) = 2 \<and>
   confirmCardPayment orders_down = Fulfilled (Success ()) \<and>
   raised (orders_insert orders_down) \<noteq> None \<and>
   ClearCart \<notin> set (snd (handlePayment orders_down (Finite 100) at_payment)) \<and>
   items (fst (handlePayment orders_down (Finite 100) at_payment)) = [shirt, scarf] \<and>
   order_items (fst (handlePayment orders_down (Finite 100) at_payment)) = [] \<and>
   orders (fst (handlePayment orders_down (Finite 100) at_payment)) = [] \<and>
   \<not> list_ex is_insert_items (snd (handlePayment orders_down (Finite 100) at_payment))"
proof -
  have w: "user at_payment = Some ada" "items at_payment = [shirt, scarf]"
    "orders at_payment = []" "order_items at_payment = []"
    by (simp_all add: at_payment_def at_shipping_def)
  have good: "create_payment_intent all_well =
                Fulfilled (Success (Some \<lparr>clientSecret = Some ''cs_1''\<rparr>))"
    "stripePromise all_well = Fulfilled (Some Stripe)"
    "confirmCardPayment all_well = Fulfilled (Success ())"
    "user at_payment = Some ada"
    "orders_insert all_well = Fulfilled (Success ''o42'')"
    "order_items_insert all_well = Fulfilled (Success ())"
    by (simp_all add: all_well_def w)
  have bad: "create_payment_intent orders_down =
               Fulfilled (Success (Some \<lparr>clientSecret = Some ''cs_1''\<rparr>))"
    "stripePromise orders_down = Fulfilled (Some Stripe)"
    "confirmCardPayment orders_down = Fulfilled (Success ())"
    "user at_payment = Some ada"
    "raised (orders_insert orders_down) = Some (ServiceError ''orders down'')"
    by (simp_all add: orders_down_def all_well_def w)
  have run_good: "list_ex is_insert_items (snd (handlePayment all_well (Finite 100) at_payment))"
    "ClearCart \<in> set (snd (handlePayment all_well (Finite 100) at_payment))"
    by (simp_all add: all_succeed [OF good])
  have run_bad: "ClearCart \<notin> set (snd (handlePayment orders_down (Finite 100) at_payment))"
    by (simp add: order_insert_fails [OF bad])
  show ?thesis
    using order_and_items_together [of all_well "Finite 100" at_payment]
      order_and_items_together [of orders_down "Finite 100" at_payment]
      run_good run_bad bad(3,5) w
    by simp
qed

subsection \<open>The binary64 model\<close>

text \<open>
  What \<open>to_double\<close> is relied on for: \<open>floor_log2\<close> is the binary exponent; the value
  returned lies within half a unit in the last place of the exact one; below \<open>2^1023\<close>
  nothing overflows; the sign is kept; and a binary64 value is returned as it is.
\<close>

lemma bit_length_bounds:
  "0 < n \<Longrightarrow> 2 ^ (bit_length n - 1) \<le> n \<and> n < 2 ^ bit_length n"
proof (induction n rule: bit_length.induct)
  case (1 n)
  show ?case
  proof (cases "n div 2 = 0")
    case True
    with "1.prems" have "n = 1" by (simp add: div_eq_0_iff)
    then show ?thesis by (simp add: bit_length.simps)
  next
    case False
    then have pos: "0 < n div 2" by simp
    from "1.prems" have n0: "n \<noteq> 0" by simp
    from "1.IH" [OF n0 pos]
    have lo: "2 ^ (bit_length (n div 2) - 1) \<le> n div 2"
      and hi: "n div 2 < 2 ^ bit_length (n div 2)" by simp_all
    have bl: "bit_length n = Suc (bit_length (n div 2))"
      using n0 by (subst bit_length.simps) simp
    have pos_bl: "0 < bit_length (n div 2)"
      using pos by (subst bit_length.simps) simp
    have "(2::nat) ^ bit_length (n div 2) = 2 * 2 ^ (bit_length (n div 2) - 1)"
      using pos_bl by (cases "bit_length (n div 2)") simp_all
    then have "(2::nat) ^ bit_length (n div 2) \<le> 2 * (n div 2)"
      using lo by simp
    also have "\<dots> \<le> n" by simp
    finally have a: "2 ^ (bit_length n - 1) \<le> n" by (simp add: bl)
    have "n < 2 * (n div 2) + 2" by arith
    also have "\<dots> \<le> 2 * 2 ^ bit_length (n div 2)" using hi by simp
    finally have b: "n < 2 ^ bit_length n" by (simp add: bl)
    from a b show ?thesis ..
  qed
qed

lemma pow2_powi: "pow2 e = 2 powi e"
  by (simp add: pow2_def power_int_def field_simps)

lemma pow2_pos: "0 < pow2 e"
  by (simp add: pow2_powi)

lemma pow2_add: "pow2 (a + b) = pow2 a * pow2 b"
  by (simp add: pow2_powi power_int_add)

lemma pow2_mono: "a \<le> b \<Longrightarrow> pow2 a \<le> pow2 b"
  by (simp add: pow2_powi power_int_increasing)

lemma floor_log2_bounds:
  assumes "0 < a"
  shows "pow2 (floor_log2 a) \<le> a \<and> a < pow2 (floor_log2 a + 1)"
proof (cases "1 \<le> a")
  case True
  define n where "n = nat \<lfloor>a\<rfloor>"
  have "1 \<le> \<lfloor>a\<rfloor>" using True by simp
  then have n: "0 < n" "int n = \<lfloor>a\<rfloor>" by (simp_all add: n_def)
  have le: "of_nat n \<le> a"
    by (metis n(2) of_int_floor_le of_int_of_nat_eq)
  have "a < of_int (int n) + 1"
    unfolding n(2) by linarith
  then have lt: "a < of_nat n + 1" by simp
  from bit_length_bounds [OF n(1)]
  have lo: "2 ^ (bit_length n - 1) \<le> n" and hi: "n < 2 ^ bit_length n" by simp_all
  have k: "0 < bit_length n" using n(1) by (subst bit_length.simps) simp
  have fl: "floor_log2 a = int (bit_length n) - 1"
    using True by (simp add: floor_log2_def n_def)
  have e1: "pow2 (floor_log2 a) = 2 ^ (bit_length n - 1)"
    using k by (simp add: fl pow2_def nat_diff_distrib')
  have e2: "pow2 (floor_log2 a + 1) = 2 ^ bit_length n"
    by (simp add: fl pow2_def)
  have "(2::rat) ^ (bit_length n - 1) \<le> of_nat n"
    using lo by (metis of_nat_le_iff of_nat_numeral of_nat_power)
  then have A: "pow2 (floor_log2 a) \<le> a"
    unfolding e1 using le by (rule order_trans)
  have "n + 1 \<le> 2 ^ bit_length n" using hi by simp
  then have "(of_nat (n + 1) :: rat) \<le> of_nat (2 ^ bit_length n)"
    using of_nat_le_iff by blast
  then have "(of_nat n :: rat) + 1 \<le> 2 ^ bit_length n" by simp
  with lt have B: "a < pow2 (floor_log2 a + 1)"
    unfolding e2 by (rule less_le_trans)
  from A B show ?thesis ..
next
  case False
  then have a1: "a < 1" by simp
  define c where "c = \<lceil>1 / a\<rceil>"
  define m where "m = nat (c - 1)"
  have inv: "1 < 1 / a" using assms a1 by simp
  have c: "1 / a \<le> of_int c" "of_int c - 1 < 1 / a"
    unfolding c_def by linarith+
  from inv c(1) have "1 < (of_int c :: rat)" by (rule less_le_trans)
  then have "2 \<le> c" by simp
  then have m: "0 < m" "int m = c - 1" by (simp_all add: m_def)
  have "(of_nat m :: rat) = of_int (int m)" by simp
  also have "\<dots> = of_int c - 1" unfolding m(2) by simp
  finally have mc: "(of_nat m :: rat) = of_int c - 1" .
  have up: "1 / a \<le> of_nat m + 1" using c(1) by (simp add: mc)
  have down: "of_nat m < 1 / a" using c(2) by (simp add: mc)
  from bit_length_bounds [OF m(1)]
  have lo: "2 ^ (bit_length m - 1) \<le> m" and hi: "m < 2 ^ bit_length m" by simp_all
  have k: "0 < bit_length m" using m(1) by (subst bit_length.simps) simp
  have fl: "floor_log2 a = - int (bit_length m)"
    using False by (simp add: floor_log2_def m_def c_def)
  have e1: "pow2 (floor_log2 a) = 1 / 2 ^ bit_length m"
    using k by (simp add: fl pow2_def)
  have e2: "pow2 (floor_log2 a + 1) = 1 / 2 ^ (bit_length m - 1)"
    using k by (cases "bit_length m") (simp_all add: fl pow2_def)
  have "m + 1 \<le> 2 ^ bit_length m" using hi by simp
  then have "(of_nat (m + 1) :: rat) \<le> of_nat (2 ^ bit_length m)"
    using of_nat_le_iff by blast
  then have "(of_nat m :: rat) + 1 \<le> 2 ^ bit_length m" by simp
  with up have "1 / a \<le> 2 ^ bit_length m" by (rule order_trans)
  then have A: "pow2 (floor_log2 a) \<le> a"
    unfolding e1 using assms by (simp add: field_simps)
  have "(2::rat) ^ (bit_length m - 1) \<le> of_nat m"
    using lo by (metis of_nat_le_iff of_nat_numeral of_nat_power)
  then have "2 ^ (bit_length m - 1) < 1 / a" using down by (rule le_less_trans)
  then have B: "a < pow2 (floor_log2 a + 1)"
    unfolding e2 using assms by (simp add: field_simps)
  from A B show ?thesis ..
qed

lemma round_half_even_error: "\<bar>of_int (round_half_even q) - q\<bar> \<le> 1 / 2"
proof -
  have "of_int \<lfloor>q\<rfloor> \<le> q" and "q < of_int \<lfloor>q\<rfloor> + 1"
    by linarith+
  then show ?thesis
    unfolding round_half_even_def Let_def by (auto simp: abs_le_iff)
qed


lemma pow2_strict_mono: "a < b \<Longrightarrow> pow2 a < pow2 b"
  by (simp add: pow2_powi power_int_strict_increasing)

lemma floor_log2_unique:
  assumes "pow2 e \<le> a" and "a < pow2 (e + 1)"
  shows "floor_log2 a = e"
proof -
  have pos: "0 < a" using assms(1) pow2_pos [of e] by linarith
  from floor_log2_bounds [OF pos]
  have lo: "pow2 (floor_log2 a) \<le> a" and hi: "a < pow2 (floor_log2 a + 1)" by simp_all
  have "\<not> floor_log2 a < e"
  proof
    assume "floor_log2 a < e"
    then have "pow2 (floor_log2 a + 1) \<le> pow2 e" by (simp add: pow2_mono)
    with hi assms(1) show False by linarith
  qed
  moreover have "\<not> e < floor_log2 a"
  proof
    assume "e < floor_log2 a"
    then have "pow2 (e + 1) \<le> pow2 (floor_log2 a)" by (simp add: pow2_mono)
    with lo assms(2) show False by linarith
  qed
  ultimately show ?thesis by linarith
qed

lemma abs_scale:
  fixes u :: rat
  assumes "0 < u"
  shows "\<bar>a - b / u\<bar> * u = \<bar>a * u - b\<bar>"
proof -
  have "(a - b / u) * u = a * u - b"
    using assms by (simp add: field_simps)
  then have "\<bar>a * u - b\<bar> = \<bar>(a - b / u) * u\<bar>"
    by (simp only:)
  also have "\<dots> = \<bar>a - b / u\<bar> * \<bar>u\<bar>"
    by (rule abs_mult)
  finally show ?thesis
    using assms by simp
qed

text \<open>The spacing of binary64 values around a rational.\<close>

lemma to_double_unfold:
  assumes "x \<noteq> 0"
  shows "to_double x =
      (if pow2 1024 \<le> of_int (round_half_even (\<bar>x\<bar> / pow2 (max (floor_log2 \<bar>x\<bar>) (- 1022) - 52))) *
             pow2 (max (floor_log2 \<bar>x\<bar>) (- 1022) - 52)
       then (if 0 < x then PosInfinity else NegInfinity)
       else Finite (if 0 < x
         then of_int (round_half_even (\<bar>x\<bar> / pow2 (max (floor_log2 \<bar>x\<bar>) (- 1022) - 52))) *
              pow2 (max (floor_log2 \<bar>x\<bar>) (- 1022) - 52)
         else - (of_int (round_half_even (\<bar>x\<bar> / pow2 (max (floor_log2 \<bar>x\<bar>) (- 1022) - 52))) *
              pow2 (max (floor_log2 \<bar>x\<bar>) (- 1022) - 52))))"
  unfolding to_double_def Let_def by (simp only: assms if_False)

lemma half_ulp: "1 / 2 * pow2 (e - 52) = pow2 (e - 53)"
  using pow2_add [of "e - 53" 1] by (simp add: pow2_def [of 1])

lemma rounded_magnitude:
  "\<bar>of_int (round_half_even (a / pow2 (e - 52))) * pow2 (e - 52) - a\<bar> \<le> pow2 (e - 53)"
proof -
  have u: "0 < pow2 (e - 52)" by (rule pow2_pos)
  have "\<bar>of_int (round_half_even (a / pow2 (e - 52))) - a / pow2 (e - 52)\<bar> \<le> 1 / 2"
    by (rule round_half_even_error)
  then have "\<bar>of_int (round_half_even (a / pow2 (e - 52))) - a / pow2 (e - 52)\<bar> * pow2 (e - 52)
      \<le> 1 / 2 * pow2 (e - 52)"
    using u by (simp add: mult_right_mono)
  then show ?thesis
    by (simp only: abs_scale [OF u] half_ulp)
qed

lemma to_double_error:
  assumes "to_double x = Finite y"
  shows "\<bar>y - x\<bar> \<le> pow2 (max (floor_log2 \<bar>x\<bar>) (- 1022) - 53)"
proof (cases "x = 0")
  case True
  with assms show ?thesis by (simp add: to_double_def pow2_pos less_imp_le)
next
  case False
  define r where "r = of_int (round_half_even (\<bar>x\<bar> / pow2 (max (floor_log2 \<bar>x\<bar>) (- 1022) - 52))) *
              pow2 (max (floor_log2 \<bar>x\<bar>) (- 1022) - 52)"
  have y: "y = (if 0 < x then r else - r)"
    using assms unfolding to_double_unfold [OF False] r_def [symmetric]
    by (simp split: if_splits)
  have "\<bar>r - \<bar>x\<bar>\<bar> \<le> pow2 (max (floor_log2 \<bar>x\<bar>) (- 1022) - 53)"
    unfolding r_def by (rule rounded_magnitude)
  then show ?thesis
    unfolding y using False by (auto simp: abs_if split: if_splits)
qed

lemma floor_log2_less:
  assumes "0 < a" and "a < pow2 k"
  shows "floor_log2 a < k"
proof (rule ccontr)
  assume "\<not> floor_log2 a < k"
  then have "pow2 k \<le> pow2 (floor_log2 a)" by (simp add: pow2_mono)
  with floor_log2_bounds [OF assms(1)] assms(2) show False by linarith
qed

text \<open>Below \<open>2^1023\<close> nothing overflows, and the relative error is at most \<open>2^-53\<close>
  (the absolute error at most \<open>2^-1075\<close> in the subnormal range).\<close>

lemma to_double_finite:
  assumes "\<bar>x\<bar> < pow2 1023"
  shows "\<exists>y. to_double x = Finite y \<and> \<bar>y - x\<bar> \<le> \<bar>x\<bar> * pow2 (- 53) + pow2 (- 1075)"
proof (cases "x = 0")
  case True
  then show ?thesis by (simp add: to_double_def pow2_pos less_imp_le)
next
  case False
  define e where "e = max (floor_log2 \<bar>x\<bar>) (- 1022)"
  define r where "r = of_int (round_half_even (\<bar>x\<bar> / pow2 (e - 52))) * pow2 (e - 52)"
  have pos: "0 < \<bar>x\<bar>" using False by simp
  have "floor_log2 \<bar>x\<bar> < 1023" using pos assms by (rule floor_log2_less)
  then have e_hi: "e \<le> 1022" by (simp add: e_def)
  have near: "\<bar>r - \<bar>x\<bar>\<bar> \<le> pow2 (e - 53)"
    unfolding r_def by (rule rounded_magnitude)
  have "pow2 (e - 53) \<le> pow2 969" using e_hi by (simp add: pow2_mono)
  with near assms have "r < pow2 1023 + pow2 969" by linarith
  also have "\<dots> < pow2 1024" by (simp add: pow2_def)
  finally have small: "\<not> pow2 1024 \<le> r" by simp
  have val: "to_double x = Finite (if 0 < x then r else - r)"
    unfolding to_double_unfold [OF False] e_def [symmetric] r_def [symmetric]
    using small by simp
  have ulp: "pow2 (e - 53) \<le> \<bar>x\<bar> * pow2 (- 53) + pow2 (- 1075)"
  proof (cases "- 1022 \<le> floor_log2 \<bar>x\<bar>")
    case True
    then have "e = floor_log2 \<bar>x\<bar>" by (simp add: e_def)
    then have "pow2 (e - 53) = pow2 (floor_log2 \<bar>x\<bar>) * pow2 (- 53)"
      using pow2_add [of "floor_log2 \<bar>x\<bar>" "- 53"] by simp
    also have "\<dots> \<le> \<bar>x\<bar> * pow2 (- 53)"
      using floor_log2_bounds [OF pos] pow2_pos [of "- 53"] by (simp add: mult_right_mono)
    finally show ?thesis using pow2_pos [of "- 1075"] by linarith
  next
    case False
    then have "e = - 1022" by (simp add: e_def)
    then have "pow2 (e - 53) = pow2 (- 1075)" by simp
    moreover have "0 \<le> \<bar>x\<bar> * pow2 (- 53)" using pow2_pos [of "- 53"] by simp
    ultimately show ?thesis by linarith
  qed
  have "\<bar>(if 0 < x then r else - r) - x\<bar> = \<bar>r - \<bar>x\<bar>\<bar>"
    using False by (auto simp: abs_if)
  with near ulp val show ?thesis by auto
qed

lemma round_half_even_nonneg: "0 \<le> q \<Longrightarrow> 0 \<le> round_half_even q"
  by (simp add: round_half_even_def Let_def)

lemma to_double_nonneg:
  assumes "to_double x = Finite y" and "0 \<le> x"
  shows "0 \<le> y"
proof (cases "x = 0")
  case True
  with assms show ?thesis by (simp add: to_double_def)
next
  case False
  with assms(2) have pos: "0 < x" by simp
  have "0 \<le> \<bar>x\<bar> / pow2 (max (floor_log2 \<bar>x\<bar>) (- 1022) - 52)"
    using pow2_pos [of "max (floor_log2 \<bar>x\<bar>) (- 1022) - 52"] by simp
  then have "0 \<le> round_half_even (\<bar>x\<bar> / pow2 (max (floor_log2 \<bar>x\<bar>) (- 1022) - 52))"
    by (rule round_half_even_nonneg)
  then have "0 \<le> of_int (round_half_even (\<bar>x\<bar> / pow2 (max (floor_log2 \<bar>x\<bar>) (- 1022) - 52))) *
      pow2 (max (floor_log2 \<bar>x\<bar>) (- 1022) - 52)"
    using pow2_pos [of "max (floor_log2 \<bar>x\<bar>) (- 1022) - 52"] by simp
  with assms(1) pos show ?thesis
    unfolding to_double_unfold [OF False] by (simp split: if_splits)
qed

lemma to_double_bounded:
  assumes "\<bar>x\<bar> \<le> 1099511627776"
  shows "\<exists>y. to_double x = Finite y \<and> (0 \<le> x \<longrightarrow> 0 \<le> y) \<and>
             \<bar>y - x\<bar> \<le> \<bar>x\<bar> / 9007199254740992 + 1 / 1152921504606846976"
proof -
  have "(1099511627776::rat) < pow2 1023" by (simp add: pow2_def)
  with assms have "\<bar>x\<bar> < pow2 1023" by linarith
  from to_double_finite [OF this]
  obtain y where y: "to_double x = Finite y"
    and err: "\<bar>y - x\<bar> \<le> \<bar>x\<bar> * pow2 (- 53) + pow2 (- 1075)" by blast
  have sign: "0 \<le> x \<longrightarrow> 0 \<le> y" using y to_double_nonneg by blast
  have "pow2 (- 1075) \<le> pow2 (- 60)" by (simp add: pow2_mono)
  also have "pow2 (- 60) = 1 / 1152921504606846976" by (simp add: pow2_def)
  finally have tiny: "pow2 (- 1075) \<le> 1 / 1152921504606846976" .
  have "pow2 (- 53) = 1 / 9007199254740992" by (simp add: pow2_def)
  then have "\<bar>x\<bar> * pow2 (- 53) = \<bar>x\<bar> / 9007199254740992" by simp
  with err tiny have "\<bar>y - x\<bar> \<le> \<bar>x\<bar> / 9007199254740992 + 1 / 1152921504606846976"
    by linarith
  with y sign show ?thesis by blast
qed

lemma round_half_even_of_int: "round_half_even (of_int n) = n"
  by (simp add: round_half_even_def)

text \<open>A binary64 value is its own rounding: \<open>n\<close> is the 53-bit significand, \<open>e\<close> the
  exponent; the subnormal values are those with \<open>e = - 1022\<close> and \<open>n < 2^52\<close>.\<close>

lemma to_double_exact:
  assumes "0 < n" and "n < 2 ^ 53" and "- 1022 \<le> e" and "e \<le> 1023"
    and "2 ^ 52 \<le> n \<or> e = - 1022"
  shows "to_double (of_int n * pow2 (e - 52)) = Finite (of_int n * pow2 (e - 52))"
proof -
  define a where "a = (of_int n :: rat) * pow2 (e - 52)"
  have u: "0 < pow2 (e - 52)" by (rule pow2_pos)
  have a_pos: "0 < a" unfolding a_def using assms(1) u by simp
  have hi: "a < pow2 (e + 1)"
  proof -
    have "(of_int n :: rat) < 2 ^ 53" using assms(2) by (metis of_int_less_iff of_int_numeral of_int_power)
    then have "a < 2 ^ 53 * pow2 (e - 52)" unfolding a_def using u by (simp add: mult_strict_right_mono)
    also have "\<dots> = pow2 (e + 1)"
    proof -
      have "e + 1 = 53 + (e - 52)" by simp
      moreover have "pow2 53 = 2 ^ 53" by (simp add: pow2_def)
      ultimately show ?thesis by (simp only: pow2_add)
    qed
    finally show ?thesis .
  qed
  have ex: "max (floor_log2 a) (- 1022) = e"
  proof (cases "2 ^ 52 \<le> n")
    case True
    then have "(2::rat) ^ 52 \<le> of_int n" by (metis of_int_le_iff of_int_numeral of_int_power)
    then have "2 ^ 52 * pow2 (e - 52) \<le> a" unfolding a_def using u by (simp add: mult_right_mono)
    moreover have "2 ^ 52 * pow2 (e - 52) = pow2 e"
    proof -
      have "e = 52 + (e - 52)" by simp
      moreover have "pow2 52 = 2 ^ 52" by (simp add: pow2_def)
      ultimately show ?thesis by (metis pow2_add)
    qed
    ultimately have "pow2 e \<le> a" by simp
    then have "floor_log2 a = e" using hi by (rule floor_log2_unique)
    with assms(3) show ?thesis by simp
  next
    case False
    with assms(5) have e: "e = - 1022" by simp
    have "floor_log2 a < e + 1" using a_pos hi by (rule floor_log2_less)
    with e show ?thesis by simp
  qed
  have "a / pow2 (e - 52) = of_int n" unfolding a_def using u by simp
  then have r: "of_int (round_half_even (a / pow2 (e - 52))) * pow2 (e - 52) = a"
    by (simp add: round_half_even_of_int a_def)
  have "pow2 (e + 1) \<le> pow2 1024" using assms(4) by (simp add: pow2_mono)
  with hi have small: "\<not> pow2 1024 \<le> a" by simp
  have ne: "a \<noteq> 0" using a_pos by simp
  have abs: "\<bar>a\<bar> = a" using a_pos by simp
  have "to_double a = Finite a"
    unfolding to_double_unfold [OF ne] abs ex r using small a_pos by simp
  then show ?thesis by (simp only: a_def)
qed

subsection \<open>Evaluating binary64 arithmetic\<close>

lemma bit_length_0: "bit_length 0 = 0"
  by (simp add: bit_length.simps)

lemma bit_length_1: "bit_length (Suc 0) = Suc 0"
  by (simp add: bit_length.simps)

lemma bit_length_Bit0: "bit_length (numeral (Num.Bit0 k)) = Suc (bit_length (numeral k))"
  by (subst bit_length.simps) simp

lemma bit_length_Bit1: "bit_length (numeral (Num.Bit1 k)) = Suc (bit_length (numeral k))"
  by (subst bit_length.simps) simp

lemma floor_rat_numeral: "\<lfloor>numeral a / (numeral b :: rat)\<rfloor> = numeral a div numeral b"
  by (metis floor_divide_of_int_eq of_int_numeral)

lemma ceiling_rat_numeral:
  "\<lceil>numeral a / (numeral b :: rat)\<rceil> = - (- numeral a div numeral b)"
  by (metis ceiling_divide_eq_div of_int_numeral)

lemmas binary64 =
  to_double_def floor_log2_def pow2_def round_half_even_def Let_def
  bit_length_0 bit_length_1 bit_length_Bit0 bit_length_Bit1 floor_rat_numeral
  ceiling_rat_numeral

text \<open>The literals \<^verbatim>\<open>0.1\<close> and \<^verbatim>\<open>1.1\<close>.\<close>

lemma one_tenth: "to_double (1 / 10) = Finite (3602879701896397 / 36028797018963968)"
  by (simp add: binary64)

lemma eleven_tenths: "to_double (11 / 10) = Finite (2476979795053773 / 2251799813685248)"
  by (simp add: binary64)

text \<open>A subtotal of 100.\<close>

lemma tax_100: "tax (Finite 100) = Finite 10"
  by (simp add: tax_def one_tenth) (simp add: binary64)

lemma totalAmount_100: "totalAmount (Finite 100) = Finite 110"
  by (simp add: totalAmount_def tax_100) (simp add: binary64)

lemma cents_100: "Math_round (js_mul (totalAmount (Finite 100)) (Finite 100)) = Finite 11000"
  by (simp add: totalAmount_100) (simp add: binary64)

text \<open>A subtotal of 8.25, a binary64 value.\<close>

lemma binary64_8_25: "to_double (33 / 4) = Finite (33 / 4)"
  by (simp add: binary64)

lemma tax_8_25: "tax (Finite (33 / 4)) = Finite (7430939385161319 / 9007199254740992)"
  by (simp add: tax_def one_tenth) (simp add: binary64)

lemma totalAmount_8_25:
  "totalAmount (Finite (33 / 4)) = Finite (2554385413649203 / 281474976710656)"
  by (simp add: totalAmount_def tax_8_25) (simp add: binary64)

lemma times_100_8_25:
  "js_mul (totalAmount (Finite (33 / 4))) (Finite 100) =
     Finite (7982454417653759 / 8796093022208)"
  by (simp add: totalAmount_8_25) (simp add: binary64)

lemma cents_8_25: "Math_round (js_mul (totalAmount (Finite (33 / 4))) (Finite 100)) = Finite 907"
  by (simp add: times_100_8_25 floor_rat_numeral)

lemma spec_amount_js_8_25: "spec_amount_js (Finite (33 / 4)) = Finite 908"
  by (simp add: spec_amount_js_def eleven_tenths) (simp add: binary64)

lemma spec_amount_8_25: "spec_amount (33 / 4) = 908"
  by (simp add: spec_amount_def floor_rat_numeral)

subsection \<open>How far the amount is from the exact one\<close>

lemma amount_close:
  assumes "0 \<le> tp" and "tp \<le> 1073741824"
  shows "\<exists>a. Math_round (js_mul (totalAmount (Finite tp)) (Finite 100)) = Finite (of_int a) \<and>
             \<bar>a - spec_amount tp\<bar> \<le> 1"
proof -
  define x1 where "x1 = tp * (3602879701896397 / 36028797018963968)"
  have x1: "tp / 10 \<le> x1" "x1 \<le> tp / 10 + tp / 1000000000000000"
    unfolding x1_def using assms(1) by linarith+
  have x1_pos: "0 \<le> x1" and x1_hi: "x1 \<le> 1073741824"
    using x1 assms by linarith+
  then have "\<bar>x1\<bar> \<le> 1099511627776" by linarith
  from to_double_bounded [OF this]
  obtain t1 where t1: "to_double x1 = Finite t1" and t1_pos: "0 \<le> x1 \<longrightarrow> 0 \<le> t1"
    and e1: "\<bar>t1 - x1\<bar> \<le> \<bar>x1\<bar> / 9007199254740992 + 1 / 1152921504606846976" by blast
  from e1 x1_pos have e1': "\<bar>t1 - x1\<bar> \<le> x1 / 9007199254740992 + 1 / 1152921504606846976"
    by simp
  then have t1_lo: "x1 - x1 / 9007199254740992 - 1 / 1152921504606846976 \<le> t1"
    and t1_hi: "t1 \<le> x1 + x1 / 9007199254740992 + 1 / 1152921504606846976"
    by linarith+
  define x2 where "x2 = tp + t1"
  have x2_lo: "tp + x1 - x1 / 9007199254740992 - 1 / 1152921504606846976 \<le> x2"
    and x2_hi: "x2 \<le> tp + x1 + x1 / 9007199254740992 + 1 / 1152921504606846976"
    unfolding x2_def using t1_lo t1_hi by linarith+
  have x2_pos: "0 \<le> x2" unfolding x2_def using t1_pos x1_pos assms(1) by linarith
  have x2_top: "x2 \<le> 4294967296" using x2_hi x1_hi x1_pos assms(2) by linarith
  then have "\<bar>x2\<bar> \<le> 1099511627776" using x2_pos by linarith
  from to_double_bounded [OF this]
  obtain t2 where t2: "to_double x2 = Finite t2" and t2_pos: "0 \<le> x2 \<longrightarrow> 0 \<le> t2"
    and e2: "\<bar>t2 - x2\<bar> \<le> \<bar>x2\<bar> / 9007199254740992 + 1 / 1152921504606846976"
    by blast
  from e2 x2_pos have "\<bar>t2 - x2\<bar> \<le> x2 / 9007199254740992 + 1 / 1152921504606846976"
    by simp
  then have t2_lo: "x2 - x2 / 9007199254740992 - 1 / 1152921504606846976 \<le> t2"
    and t2_hi: "t2 \<le> x2 + x2 / 9007199254740992 + 1 / 1152921504606846976"
    by linarith+
  define x3 where "x3 = t2 * 100"
  have x3_lo: "100 * x2 - 100 * x2 / 9007199254740992 - 100 / 1152921504606846976 \<le> x3"
    and x3_hi: "x3 \<le> 100 * x2 + 100 * x2 / 9007199254740992 + 100 / 1152921504606846976"
    unfolding x3_def using t2_lo t2_hi by linarith+
  have x3_pos: "0 \<le> x3" unfolding x3_def using t2_pos x2_pos by linarith
  have x3_top: "x3 \<le> 1099511627776" using x3_hi x2_top x2_pos by linarith
  then have "\<bar>x3\<bar> \<le> 1099511627776" using x3_pos by linarith
  from to_double_bounded [OF this]
  obtain t3 where t3: "to_double x3 = Finite t3" and t3_pos: "0 \<le> x3 \<longrightarrow> 0 \<le> t3"
    and e3: "\<bar>t3 - x3\<bar> \<le> \<bar>x3\<bar> / 9007199254740992 + 1 / 1152921504606846976"
    by blast
  have "\<bar>x3\<bar> \<le> 1099511627776" using x3_pos x3_top by linarith
  with e3 have "\<bar>t3 - x3\<bar> \<le> 1 / 1000" by linarith
  then have t3_lo: "x3 - 1 / 1000 \<le> t3" and t3_hi: "t3 \<le> x3 + 1 / 1000"
    by linarith+
  have lo: "tp * 110 - 1 / 100 \<le> t3"
    using t3_lo x3_lo x2_lo x2_top x2_pos x1 x1_hi x1_pos assms by linarith
  have hi: "t3 \<le> tp * 110 + 1 / 100"
    using t3_hi x3_hi x2_hi x2_top x2_pos x1 x1_hi x1_pos assms by linarith
  have val: "Math_round (js_mul (totalAmount (Finite tp)) (Finite 100)) =
      Finite (of_int \<lfloor>t3 + 1 / 2\<rfloor>)"
    by (simp only: totalAmount_def tax_def one_tenth js_mul.simps js_add.simps Math_round.simps x1_def [symmetric] t1
        x2_def [symmetric] t2 x3_def [symmetric] t3)
  have s: "tp * (11 / 10) * 100 = tp * 110" by simp
  have "\<bar>\<lfloor>t3 + 1 / 2\<rfloor> - \<lfloor>tp * 110 + 1 / 2\<rfloor>\<bar> \<le> 1"
    using lo hi by linarith
  with val show ?thesis unfolding spec_amount_def s by blast
qed

subsection \<open>What the gateway is asked for\<close>

lemma handlePayment_starts:
  "\<exists>rest. snd (handlePayment env tp w) = SetIsProcessing True # intent_request tp # rest \<and>
          List.map_filter requested rest = []"
  by (auto simp: handlePayment_defs List.map_filter_simps split: answer_splits)

lemma sent_to_gateway_eq:
  "sent_to_gateway env tp w = [(Math_round (js_mul (totalAmount tp) (Finite 100)), ''usd'')]"
proof -
  obtain rest where "snd (handlePayment env tp w) = SetIsProcessing True # intent_request tp # rest"
    and "List.map_filter requested rest = []"
    using handlePayment_starts by blast
  then show ?thesis
    by (simp add: sent_to_gateway_def List.map_filter_simps intent_request_def)
qed

text \<open>
  C3, as the code has it. In every run of \<^verbatim>\<open>handlePayment\<close> exactly one payment intent
  is requested, in the currency \<^verbatim>\<open>usd\<close>, for the amount
  \<^verbatim>\<open>Math.round((totalPrice + totalPrice * 0.1) * 100)\<close>, every operation being the
  binary64 one. For a subtotal between 0 and \<open>2^30\<close> that amount is a whole number within
  one minor unit of the specification's \<^verbatim>\<open>round(subtotal * 1.1 * 100)\<close>. For a subtotal
  of 100 the tax is 10, the total is 110 and the amount is 11000.
\<close>

theorem gateway_amount:
  "sent_to_gateway env tp w =
     [(Math_round (js_mul (js_add tp (js_mul tp (to_double (1 / 10)))) (Finite 100)), ''usd'')] \<and>
   (0 \<le> subtotal \<and> subtotal \<le> 2 ^ 30 \<longrightarrow>
      (\<exists>cents. sent_to_gateway env (Finite subtotal) w = [(Finite (of_int cents), ''usd'')] \<and>
               \<bar>cents - spec_amount subtotal\<bar> \<le> 1)) \<and>
   tax (Finite 100) = Finite 10 \<and>
   totalAmount (Finite 100) = Finite 110 \<and>
   sent_to_gateway env (Finite 100) w = [(Finite 11000, ''usd'')]"
proof -
  have "sent_to_gateway env tp w =
     [(Math_round (js_mul (js_add tp (js_mul tp (to_double (1 / 10)))) (Finite 100)), ''usd'')]"
    by (simp add: sent_to_gateway_eq totalAmount_def tax_def)
  moreover have "\<exists>cents. sent_to_gateway env (Finite subtotal) w = [(Finite (of_int cents), ''usd'')] \<and>
      \<bar>cents - spec_amount subtotal\<bar> \<le> 1"
    if "0 \<le> subtotal" and "subtotal \<le> 2 ^ 30"
  proof -
    from that have "subtotal \<le> 1073741824" by simp
    from amount_close [OF that(1) this] show ?thesis
      by (simp only: sent_to_gateway_eq) blast
  qed
  moreover have "sent_to_gateway env (Finite 100) w = [(Finite 11000, ''usd'')]"
    by (simp only: sent_to_gateway_eq cents_100)
  ultimately show ?thesis
    using tax_100 totalAmount_100 by blast
qed

theorem gateway_amount_witness:
  "(0::rat) \<le> 33 / 4 \<and> (33 / 4 :: rat) \<le> 2 ^ 30 \<and>
   (\<exists>cents. sent_to_gateway all_well (Finite (33 / 4)) mug_at_payment =
              [(Finite (of_int cents), ''usd'')] \<and>
            \<bar>cents - spec_amount (33 / 4)\<bar> \<le> 1) \<and>
   sent_to_gateway all_well (Finite (33 / 4)) mug_at_payment =
     [(Math_round (js_mul (js_add (Finite (33 / 4)) (js_mul (Finite (33 / 4)) (to_double (1 / 10))))
         (Finite 100)), ''usd'')] \<and>
   sent_to_gateway all_well (Finite 100) at_payment = [(Finite 11000, ''usd'')]"
proof -
  have range: "(0::rat) \<le> 33 / 4 \<and> (33 / 4 :: rat) \<le> 2 ^ 30"
    by simp
  from gateway_amount [of all_well "Finite (33 / 4)" mug_at_payment "33 / 4"] range
  have a: "sent_to_gateway all_well (Finite (33 / 4)) mug_at_payment =
     [(Math_round (js_mul (js_add (Finite (33 / 4)) (js_mul (Finite (33 / 4)) (to_double (1 / 10))))
         (Finite 100)), ''usd'')]"
    and b: "\<exists>cents. sent_to_gateway all_well (Finite (33 / 4)) mug_at_payment =
              [(Finite (of_int cents), ''usd'')] \<and>
            \<bar>cents - spec_amount (33 / 4)\<bar> \<le> 1"
    by blast+
  from gateway_amount [of all_well "Finite 100" at_payment 0]
  have c: "sent_to_gateway all_well (Finite 100) at_payment = [(Finite 11000, ''usd'')]"
    by blast
  from range a b c show ?thesis
    by blast
qed

text \<open>
  C3, as the specification has it, fails for a subtotal of 8.25, which is a binary64
  value as it stands. The specification's
  \<^verbatim>\<open>round(subtotal * 1.1 * 100)\<close> is 908, in exact arithmetic (a half rounded up, or to the
  even neighbour) and as a JavaScript expression alike; the page asks for 907, because
  its binary64 product of the total by 100 falls just below 907.5.
\<close>

theorem gateway_amount_counterexample:
  "to_double (33 / 4) = Finite (33 / 4) \<and>
   sent_to_gateway all_well (Finite (33 / 4)) mug_at_payment = [(Finite 907, ''usd'')] \<and>
   spec_amount (33 / 4) = 908 \<and>
   round_half_even (33 / 4 * (11 / 10) * 100) = 908 \<and>
   spec_amount_js (Finite (33 / 4)) = Finite 908 \<and>
   sent_to_gateway all_well (Finite (33 / 4)) mug_at_payment \<noteq>
     [(Finite (of_int (spec_amount (33 / 4))), ''usd'')] \<and>
   sent_to_gateway all_well (Finite (33 / 4)) mug_at_payment \<noteq>
     [(spec_amount_js (Finite (33 / 4)), ''usd'')]"
  by (simp add: binary64_8_25 sent_to_gateway_eq cents_8_25 spec_amount_8_25
      spec_amount_js_8_25 round_half_even_def floor_rat_numeral)

subsection \<open>The total on the order\<close>

text \<open>
  C9. On a payment that goes through, the total stored on the order row is
  \<^verbatim>\<open>totalPrice + totalPrice * 0.1\<close> as the page computes it, not rounded to minor units
  and not derived from the amount asked of the gateway, which is that same total times
  100, rounded. There are subtotals (8.25 is one) for which the stored total times 100,
  taken exactly or as the binary64 product, is not the amount charged.
\<close>

theorem persisted_total_unrounded:
  assumes "create_payment_intent env = Fulfilled (Success (Some intent))"
      and "stripePromise env = Fulfilled (Some s)"
      and "confirmCardPayment env = Fulfilled (Success ())"
      and "user w = Some u"
      and "orders_insert env = Fulfilled (Success oid)"
      and "order_items_insert env = Fulfilled (Success ())"
  shows "orders (fst (handlePayment env tp w)) =
           orders w @ [order_row (order_fields u tp w) oid] \<and>
         o_total (order_row (order_fields u tp w) oid) =
           js_add tp (js_mul tp (to_double (1 / 10))) \<and>
         sent_to_gateway env tp w =
           [(Math_round (js_mul (o_total (order_row (order_fields u tp w) oid)) (Finite 100)),
             ''usd'')] \<and>
         (\<exists>subtotal total cents.
            totalAmount (Finite subtotal) = Finite total \<and>
            Math_round (js_mul (Finite total) (Finite 100)) = Finite cents \<and>
            total * 100 \<noteq> cents \<and>
            js_mul (Finite total) (Finite 100) \<noteq> Finite cents)"
proof -
  have stored: "orders (fst (handlePayment env tp w)) =
      orders w @ [order_row (order_fields u tp w) oid]"
    by (simp add: all_succeed [OF assms])
  have total: "o_total (order_row (order_fields u tp w) oid) =
      js_add tp (js_mul tp (to_double (1 / 10)))"
    by (simp add: order_row_def order_fields_def totalAmount_def tax_def)
  have asked: "sent_to_gateway env tp w =
      [(Math_round (js_mul (o_total (order_row (order_fields u tp w) oid)) (Finite 100)), ''usd'')]"
    by (simp add: sent_to_gateway_eq order_row_def order_fields_def)
  have "totalAmount (Finite (33 / 4)) = Finite (2554385413649203 / 281474976710656) \<and>
      Math_round (js_mul (Finite (2554385413649203 / 281474976710656)) (Finite 100)) = Finite 907 \<and>
      (2554385413649203 / 281474976710656 :: rat) * 100 \<noteq> 907 \<and>
      js_mul (Finite (2554385413649203 / 281474976710656)) (Finite 100) \<noteq> Finite 907"
    using totalAmount_8_25 times_100_8_25 cents_8_25 by simp
  then have differ: "\<exists>subtotal total cents.
      totalAmount (Finite subtotal) = Finite total \<and>
      Math_round (js_mul (Finite total) (Finite 100)) = Finite cents \<and>
      total * 100 \<noteq> cents \<and>
      js_mul (Finite total) (Finite 100) \<noteq> Finite cents"
    by blast
  from stored total asked differ show ?thesis
    by blast
qed

theorem persisted_total_unrounded_witness:
  "orders (fst (handlePayment all_well (Finite (33 / 4)) mug_at_payment)) =
     [order_row (order_fields ada (Finite (33 / 4)) mug_at_payment) ''o42''] \<and>
   o_total (order_row (order_fields ada (Finite (33 / 4)) mug_at_payment) ''o42'') =
     Finite (2554385413649203 / 281474976710656) \<and>
   sent_to_gateway all_well (Finite (33 / 4)) mug_at_payment = [(Finite 907, ''usd'')] \<and>
   (2554385413649203 / 281474976710656 :: rat) * 100 \<noteq> 907"
proof -
  have env: "create_payment_intent all_well =
               Fulfilled (Success (Some \<lparr>clientSecret = Some ''cs_1''\<rparr>))"
    "stripePromise all_well = Fulfilled (Some Stripe)"
    "confirmCardPayment all_well = Fulfilled (Success ())"
    by (simp_all add: all_well_def)
  have usr: "user mug_at_payment = Some ada"
    by (simp add: mug_at_payment_def at_payment_def at_shipping_def)
  have ins: "orders_insert all_well = Fulfilled (Success ''o42'')"
    "order_items_insert all_well = Fulfilled (Success ())"
    by (simp_all add: all_well_def)
  have before: "orders mug_at_payment = []"
    by (simp add: mug_at_payment_def at_payment_def at_shipping_def)
  have sum: "js_add (Finite (33 / 4)) (js_mul (Finite (33 / 4)) (to_double (1 / 10))) =
      Finite (2554385413649203 / 281474976710656)"
    using totalAmount_8_25 by (simp only: totalAmount_def tax_def)
  have cents: "Math_round (js_mul (Finite (2554385413649203 / 281474976710656)) (Finite 100)) =
      Finite 907"
    using cents_8_25 by (simp only: totalAmount_8_25)
  from persisted_total_unrounded [OF env usr ins, of "Finite (33 / 4)"]
  show ?thesis
    by (simp only: before sum cents append_Nil) simp
qed

end
